theory Spec2Isabelle
  imports Main "HOL-Library.Sublist"
begin

section \<open>Python strings and lists\<close>

text \<open>
  A Python \<open>str\<close> is a sequence of Unicode code points; the scripts compare, search,
  split and strip such strings, and several of their literals are Japanese. A string is
  therefore a list of code points, and an ASCII literal is written through \<open>ascii\<close>.
  The text of a file is what \<open>f.read()\<close> returns and what \<open>f.write\<close> is given: the
  files are opened in text mode, where a line ends in the single character \<open>\n\<close>
  (code point 10).
\<close>

type_synonym pystr = "nat list"

definition ascii :: "string \<Rightarrow> pystr" where
  "ascii s = map of_char s"

text \<open>\<open>str.isspace\<close> on one code point (the table CPython uses for \<open>strip\<close> and \<open>\s\<close>).\<close>

definition py_isspace :: "nat \<Rightarrow> bool" where
  "py_isspace c \<longleftrightarrow>
     (9 \<le> c \<and> c \<le> 13) \<or> (28 \<le> c \<and> c \<le> 32) \<or> c = 133 \<or> c = 160 \<or> c = 5760 \<or>
     (8192 \<le> c \<and> c \<le> 8202) \<or> c = 8232 \<or> c = 8233 \<or> c = 8239 \<or> c = 8287 \<or> c = 12288"

text \<open>\<open>s.strip()\<close>: drop the whitespace at both ends.\<close>

definition py_strip :: "pystr \<Rightarrow> pystr" where
  "py_strip s = rev (dropWhile py_isspace (rev (dropWhile py_isspace s)))"

text \<open>\<open>sub in s\<close> for strings: \<open>sub\<close> occurs as a contiguous piece of \<open>s\<close>.\<close>

fun py_in :: "pystr \<Rightarrow> pystr \<Rightarrow> bool" where
  "py_in sub [] = (sub = [])"
| "py_in sub (c # cs) = (prefix sub (c # cs) \<or> py_in sub cs)"

text \<open>\<open>s.split('\n')\<close>: the result always has at least one element.\<close>

fun py_split_nl :: "pystr \<Rightarrow> pystr list" where
  "py_split_nl [] = [[]]"
| "py_split_nl (c # cs) =
     (if c = 10 then [] # py_split_nl cs
      else (case py_split_nl cs of [] \<Rightarrow> [[c]] | l # ls \<Rightarrow> (c # l) # ls))"

text \<open>\<open>'\n'.join(ls)\<close>.\<close>

fun py_join_nl :: "pystr list \<Rightarrow> pystr" where
  "py_join_nl [] = []"
| "py_join_nl [l] = l"
| "py_join_nl (l # l' # ls) = l @ 10 # py_join_nl (l' # ls)"

datatype py_error = IOError | IndexError

text \<open>\<open>xs[j]\<close>: a negative index counts from the end, an index out of range raises.\<close>

definition py_index :: "'a list \<Rightarrow> int \<Rightarrow> py_error + 'a" where
  "py_index xs j =
     (let n = int (length xs); k = (if j < 0 then n + j else j)
      in if 0 \<le> k \<and> k < n then Inr (xs ! nat k) else Inl IndexError)"

text \<open>\<open>xs.insert(-1, x)\<close>: before the last element (at the front of an empty list).\<close>

definition py_insert_m1 :: "'a list \<Rightarrow> 'a \<Rightarrow> 'a list" where
  "py_insert_m1 xs x = (if xs = [] then [x] else butlast xs @ [x, last xs])"

text \<open>
  \<open>a and b\<close> evaluates \<open>b\<close> only when \<open>a\<close> is true; an \<open>if\<close>/\<open>elif\<close> chain evaluates
  its conditions in order, and an exception raised by a condition leaves the chain.
\<close>

definition py_and :: "bool \<Rightarrow> py_error + bool \<Rightarrow> py_error + bool" where
  "py_and a b = (if a then b else Inr False)"

definition elif :: "py_error + bool \<Rightarrow> py_error + 'a \<Rightarrow> py_error + 'a \<Rightarrow> py_error + 'a" where
  "elif c t e = (case c of Inl x \<Rightarrow> Inl x | Inr b \<Rightarrow> if b then t else e)"

text \<open>\<open>s in xs[j]\<close>.\<close>

definition in_line :: "pystr \<Rightarrow> pystr list \<Rightarrow> int \<Rightarrow> py_error + bool" where
  "in_line s xs j = (case py_index xs j of Inl x \<Rightarrow> Inl x | Inr l \<Rightarrow> Inr (py_in s l))"

section \<open>add_debug_final.py: the line scanner for game.js\<close>

definition game_marker :: pystr where
  "game_marker = ascii ''DEBUG: Click event occurred''"

definition game_marker' :: pystr where
  "game_marker' = ascii ''// DEBUG: Click event occurred''"

definition game_anchor1 :: pystr where
  "game_anchor1 = ascii ''const { owner, zone, cardId, index } = dataset;''"

definition game_ctx1 :: pystr where
  "game_ctx1 = ascii ''async _handleCardClick''"

definition game_anchor2 :: pystr where
  "game_anchor2 = ascii ''if (this.state.isProcessing) {''"

definition game_ctx2 :: pystr where
  "game_ctx2 = [20966, 29702, 20013, 12398, 22580, 21512, 12399, 12463, 12522, 12483, 12463,
     12434, 28961, 35222]"

definition game_anchor3 :: pystr where
  "game_anchor3 = ascii ''if (this.state.turnPlayer === 'player' && owner === 'cpu') {''"

definition game_ctx3 :: pystr where
  "game_ctx3 = [12479, 12540, 12531, 12503, 12524, 12452, 12516, 12540, 12392, 25152, 26377,
     32773, 12398, 12481, 12455, 12483, 12463]"

definition game_anchor4 :: pystr where
  "game_anchor4 = ascii ''if (zone === 'active' || zone === 'bench') {''"

definition game_ctx4 :: pystr where
  "game_ctx4 = ascii ''CPU'' @ [12398, 12459, 12540, 12489, 12399, 24773, 22577, 34920, 31034,
     12398, 12415, 35377, 21487]"

definition game_anchor5 :: pystr where
  "game_anchor5 = ascii ''if (this.state.turnPlayer === 'cpu' && owner === 'player') {''"

definition game_anchor6 :: pystr where
  "game_anchor6 = ascii ''// Handle different phases''"

definition game_ctx6 :: pystr where
  "game_ctx6 = ascii ''switch''"

definition game_block1 :: "pystr list" where
  "game_block1 =
     [[],
      ascii ''        // DEBUG: Click event occurred'',
      ascii ''        console.log('Card Click:', {'',
      ascii ''            owner,'',
      ascii ''            zone,'',
      ascii ''            cardId,'',
      ascii ''            index,'',
      ascii ''            currentPhase: this.state.phase,'',
      ascii ''            turnPlayer: this.state.turnPlayer,'',
      ascii ''            isProcessing: this.state.isProcessing'',
      ascii ''        });'']"

definition game_log2 :: pystr where
  "game_log2 = ascii ''            console.log('BLOCKED: isProcessing = true');''"

definition game_log3 :: pystr where
  "game_log3 = ascii ''            console.log('BLOCKED: Player turn, CPU card clicked', { zone });''"

definition game_log4 :: pystr where
  "game_log4 = ascii ''                console.log('INFO: Info display allowed for CPU active/bench');''"

definition game_log5 :: pystr where
  "game_log5 = ascii ''            console.log('BLOCKED: CPU turn, Player card clicked');''"

definition game_log6 :: pystr where
  "game_log6 = ascii ''        console.log('ALLOWED: Click allowed, processing...');''"

text \<open>The conditions of the six branches, for the line at index \<open>i\<close> (\<open>i < len(lines)\<close>).\<close>

definition game_cond1 :: "pystr list \<Rightarrow> nat \<Rightarrow> py_error + bool" where
  "game_cond1 lines i =
     py_and (py_in game_anchor1 (lines ! i)) (in_line game_ctx1 lines (int i - 1))"

definition game_cond2 :: "pystr list \<Rightarrow> nat \<Rightarrow> py_error + bool" where
  "game_cond2 lines i =
     py_and (py_strip (lines ! i) = game_anchor2)
       (py_and (i > 0) (in_line game_ctx2 lines (int i - 1)))"

definition game_cond3 :: "pystr list \<Rightarrow> nat \<Rightarrow> py_error + bool" where
  "game_cond3 lines i =
     py_and (py_strip (lines ! i) = game_anchor3)
       (py_and (i > 0) (in_line game_ctx3 lines (int i - 1)))"

definition game_cond4 :: "pystr list \<Rightarrow> nat \<Rightarrow> py_error + bool" where
  "game_cond4 lines i =
     py_and (py_strip (lines ! i) = game_anchor4) (in_line game_ctx4 lines (int i - 1))"

definition game_cond5 :: "pystr list \<Rightarrow> nat \<Rightarrow> py_error + bool" where
  "game_cond5 lines i = Inr (py_strip (lines ! i) = game_anchor5)"

definition game_cond6 :: "pystr list \<Rightarrow> nat \<Rightarrow> py_error + bool" where
  "game_cond6 lines i =
     py_and (py_strip (lines ! i) = game_anchor6) (in_line game_ctx6 lines (int i + 1))"

text \<open>One iteration of the \<open>while\<close> loop: the body between \<open>line = lines[i]\<close> and \<open>i += 1\<close>.\<close>

definition game_body :: "pystr list \<Rightarrow> nat \<Rightarrow> pystr list \<Rightarrow> py_error + pystr list" where
  "game_body lines i new_lines =
     (let nl = new_lines @ [lines ! i] in
      elif (game_cond1 lines i) (Inr (nl @ game_block1))
     (elif (game_cond2 lines i) (Inr (nl @ [game_log2]))
     (elif (game_cond3 lines i) (Inr (nl @ [game_log3]))
     (elif (game_cond4 lines i) (Inr (nl @ [game_log4]))
     (elif (game_cond5 lines i) (Inr (nl @ [game_log5]))
     (elif (game_cond6 lines i) (Inr (py_insert_m1 (py_insert_m1 nl []) game_log6))
     (Inr nl)))))))"

function game_while :: "pystr list \<Rightarrow> nat \<Rightarrow> pystr list \<Rightarrow> py_error + pystr list" where
  "game_while lines i new_lines =
     (if i < length lines
      then (case game_body lines i new_lines of
              Inl x \<Rightarrow> Inl x
            | Inr nl \<Rightarrow> game_while lines (i + 1) nl)
      else Inr new_lines)"
  by pat_completeness auto
termination
  by (relation "measure (\<lambda>(lines, i, new_lines). length lines - i)") auto

declare game_while.simps [simp del]

text \<open>
  What the function does with the text it has read: it either returns at the guard
  (nothing is written) or it reaches the \<open>f.write(content)\<close> with the new text.
\<close>

datatype outcome = Skipped | Updated pystr

definition game_js_text :: "pystr \<Rightarrow> py_error + outcome" where
  "game_js_text content =
     (if py_in game_marker content \<or> py_in game_marker' content then Inr Skipped
      else (case game_while (py_split_nl content) 0 [] of
              Inl x \<Rightarrow> Inl x
            | Inr new_lines \<Rightarrow> Inr (Updated (py_join_nl new_lines))))"

text \<open>
  The scanner seen one line at a time: which branch is taken at line \<open>i\<close> (0 for none),
  the lines that branch adds, and where they go relative to the line copied.
\<close>

definition game_branch :: "pystr list \<Rightarrow> nat \<Rightarrow> py_error + nat" where
  "game_branch lines i =
      elif (game_cond1 lines i) (Inr 1)
     (elif (game_cond2 lines i) (Inr 2)
     (elif (game_cond3 lines i) (Inr 3)
     (elif (game_cond4 lines i) (Inr 4)
     (elif (game_cond5 lines i) (Inr 5)
     (elif (game_cond6 lines i) (Inr 6)
     (Inr 0))))))"

definition game_ins :: "nat \<Rightarrow> pystr list" where
  "game_ins k =
     (if k = 1 then game_block1 else if k = 2 then [game_log2] else if k = 3 then [game_log3]
      else if k = 4 then [game_log4] else if k = 5 then [game_log5]
      else if k = 6 then [[], game_log6] else [])"

definition game_place :: "nat \<Rightarrow> pystr \<Rightarrow> pystr list" where
  "game_place k line = (if k = 6 then game_ins k @ [line] else line # game_ins k)"

text \<open>
  \<open>lines[i-1]\<close> as Python reads it for \<open>0 \<le> i < len(lines)\<close> (index \<open>-1\<close> is the last
  line), and what it means for a line to be an anchor text between two runs of
  whitespace.
\<close>

definition prev_line :: "pystr list \<Rightarrow> nat \<Rightarrow> pystr" where
  "prev_line lines i = (if i = 0 then last lines else lines ! (i - 1))"

abbreviation padded :: "pystr \<Rightarrow> pystr \<Rightarrow> bool" where
  "padded a l \<equiv>
     \<exists>ws1 ws2. list_all py_isspace ws1 \<and> list_all py_isspace ws2 \<and> l = ws1 @ a @ ws2"

section \<open>add_debug_final.py: the line scanner for interaction.js\<close>

definition inter_marker :: pystr where
  "inter_marker = ascii ''THREE.JS MOUSE DOWN:''"

definition inter_anchor1 :: pystr where
  "inter_anchor1 = ascii ''const object = this._findInteractiveParent(firstHit.object);''"

definition inter_anchor2 :: pystr where
  "inter_anchor2 = ascii ''if (this.gameState && this.gameState.turnPlayer !== 'player') {''"

definition inter_ctx2 :: pystr where
  "inter_ctx2 = ascii ''CPU'' @ [12479, 12540, 12531, 20013, 12399, 12489, 12521, 12483, 12464,
     19981, 21487]"

definition inter_block1 :: "pystr list" where
  "inter_block1 =
     [[],
      ascii ''            console.log('THREE.JS MOUSE DOWN:', {'',
      ascii ''                objectType: object?.userData?.type,'',
      ascii ''                owner: object?.userData?.owner,'',
      ascii ''                isDraggable: object?.userData?.isDraggable,'',
      ascii ''                currentPlayer: this.gameState?.turnPlayer'',
      ascii ''            });'']"

definition inter_log2 :: pystr where
  "inter_log2 = ascii ''                    console.log('DRAG BLOCKED: Wrong turn', { owner: object.userData.owner, currentPlayer: this.gameState.turnPlayer });''"

definition inter_body :: "pystr list \<Rightarrow> nat \<Rightarrow> pystr list \<Rightarrow> py_error + pystr list" where
  "inter_body lines i new_lines =
     (let nl = new_lines @ [lines ! i] in
      elif (Inr (py_in inter_anchor1 (lines ! i))) (Inr (nl @ inter_block1))
     (elif (py_and (py_in inter_anchor2 (lines ! i)) (in_line inter_ctx2 lines (int i - 1)))
        (Inr (nl @ [inter_log2]))
     (Inr nl)))"

function inter_while :: "pystr list \<Rightarrow> nat \<Rightarrow> pystr list \<Rightarrow> py_error + pystr list" where
  "inter_while lines i new_lines =
     (if i < length lines
      then (case inter_body lines i new_lines of
              Inl x \<Rightarrow> Inl x
            | Inr nl \<Rightarrow> inter_while lines (i + 1) nl)
      else Inr new_lines)"
  by pat_completeness auto
termination
  by (relation "measure (\<lambda>(lines, i, new_lines). length lines - i)") auto

declare inter_while.simps [simp del]

definition interaction_js_text :: "pystr \<Rightarrow> py_error + outcome" where
  "interaction_js_text content =
     (if py_in inter_marker content then Inr Skipped
      else (case inter_while (py_split_nl content) 0 [] of
              Inl x \<Rightarrow> Inl x
            | Inr new_lines \<Rightarrow> Inr (Updated (py_join_nl new_lines))))"

section \<open>Regular expressions as the scripts use them\<close>

text \<open>
  Every pattern of the scripts is a sequence of literal text, \<open>\s+\<close> and \<open>.*\<close>, with
  parentheses around runs of these. A pattern is the list of its atoms together with, for
  each group, the range of atoms the group encloses. \<open>rmatch\<close> matches a pattern at the
  start of a string the way a backtracking matcher does: a quantifier takes the longest
  run first and gives characters back one at a time. It returns the text matched by each
  atom and the rest of the string. \<open>\s\<close> is \<open>py_isspace\<close>; \<open>.\<close> is any character but
  the newline.
\<close>

datatype atom = Lit pystr | Spaces | DotStar

record regex =
  atoms :: "atom list"
  groups :: "(nat \<times> nat) list"

text \<open>A replacement template: literal text and group references \<open>\1\<close>, \<open>\2\<close>.\<close>

datatype repl = Txt pystr | Grp nat

fun first_some :: "('a \<Rightarrow> 'b option) \<Rightarrow> 'a list \<Rightarrow> 'b option" where
  "first_some f [] = None"
| "first_some f (k # ks) = (case f k of Some r \<Rightarrow> Some r | None \<Rightarrow> first_some f ks)"

fun rmatch :: "atom list \<Rightarrow> pystr \<Rightarrow> (pystr list \<times> pystr) option" where
  "rmatch [] s = Some ([], s)"
| "rmatch (Lit l # ps) s =
     (if prefix l s
      then (case rmatch ps (drop (length l) s) of
              None \<Rightarrow> None
            | Some (gs, r) \<Rightarrow> Some (l # gs, r))
      else None)"
| "rmatch (Spaces # ps) s =
     first_some
       (\<lambda>k. case rmatch ps (drop k s) of None \<Rightarrow> None | Some (gs, r) \<Rightarrow> Some (take k s # gs, r))
       (rev [1..<Suc (length (takeWhile py_isspace s))])"
| "rmatch (DotStar # ps) s =
     first_some
       (\<lambda>k. case rmatch ps (drop k s) of None \<Rightarrow> None | Some (gs, r) \<Rightarrow> Some (take k s # gs, r))
       (rev [0..<Suc (length (takeWhile (\<lambda>c. c \<noteq> 10) s))])"

definition group_text :: "regex \<Rightarrow> pystr list \<Rightarrow> nat \<Rightarrow> pystr" where
  "group_text rx gs n =
     (case groups rx ! (n - 1) of (a, b) \<Rightarrow> concat (take (b - a) (drop a gs)))"

fun expand :: "regex \<Rightarrow> pystr list \<Rightarrow> repl list \<Rightarrow> pystr" where
  "expand rx gs [] = []"
| "expand rx gs (Txt t # rs) = t @ expand rx gs rs"
| "expand rx gs (Grp n # rs) = group_text rx gs n @ expand rx gs rs"

text \<open>
  \<open>re.sub(pattern, repl, s, count)\<close>: scan from the left; where the pattern matches, emit
  the expanded template and continue behind the match; elsewhere copy the character.
  \<open>left\<close> is the number of replacements still allowed (\<open>None\<close> for no limit, which is
  what \<open>count=0\<close> means); \<open>skip\<close> counts the characters of the last match still to be
  passed over. After an empty match the character at that position is copied.
\<close>

fun sub_scan :: "regex \<Rightarrow> repl list \<Rightarrow> nat option \<Rightarrow> nat \<Rightarrow> pystr \<Rightarrow> pystr" where
  "sub_scan rx rp left 0 [] =
     (if left = Some 0 then []
      else (case rmatch (atoms rx) [] of None \<Rightarrow> [] | Some (gs, r) \<Rightarrow> expand rx gs rp))"
| "sub_scan rx rp left (Suc skip) [] = []"
| "sub_scan rx rp left (Suc skip) (c # cs) = sub_scan rx rp left skip cs"
| "sub_scan rx rp left 0 (c # cs) =
     (if left = Some 0 then c # cs
      else (case rmatch (atoms rx) (c # cs) of
              None \<Rightarrow> c # sub_scan rx rp left 0 cs
            | Some (gs, r) \<Rightarrow>
                expand rx gs rp @
                (if concat gs = [] then c # sub_scan rx rp (map_option (\<lambda>n. n - 1) left) 0 cs
                 else sub_scan rx rp (map_option (\<lambda>n. n - 1) left)
                        (length (concat gs) - 1) cs)))"

definition re_sub :: "regex \<Rightarrow> repl list \<Rightarrow> pystr \<Rightarrow> nat \<Rightarrow> pystr" where
  "re_sub rx rp s count = sub_scan rx rp (if count = 0 then None else Some count) 0 s"

text \<open>
  What \<open>rmatch\<close> returns for an atom: a literal is matched by itself, \<open>\s+\<close> by
  whitespace.
\<close>

fun piece_ok :: "atom \<Rightarrow> pystr \<Rightarrow> bool" where
  "piece_ok (Lit l) g = (g = l)"
| "piece_ok Spaces g = list_all py_isspace g"
| "piece_ok DotStar g = True"

text \<open>
  \<open>groups_only rx\<close> is the template \<open>\1\2...\<close> that puts back the groups of a match and
  nothing else: substituting with it removes from the text exactly what the matches
  consumed outside the groups. \<open>keeps_groups rx rp\<close> says of a pattern and its template,
  for every match: the groups are still there, in order, in the replacement; they are
  part of the match; what the match holds besides them is whitespace; and they are the
  whole match when one group encloses the whole pattern.
\<close>

fun grefs :: "nat \<Rightarrow> nat \<Rightarrow> repl list" where
  "grefs k 0 = []"
| "grefs k (Suc n) = Grp k # grefs (Suc k) n"

definition groups_only :: "regex \<Rightarrow> repl list" where
  "groups_only rx = grefs 1 (length (groups rx))"

definition keeps_groups :: "regex \<Rightarrow> repl list \<Rightarrow> bool" where
  "keeps_groups rx rp \<longleftrightarrow>
     (\<forall>gs. list_all2 piece_ok (atoms rx) gs \<longrightarrow>
        subseq (expand rx gs (groups_only rx)) (expand rx gs rp) \<and>
        subseq (expand rx gs (groups_only rx)) (concat gs) \<and>
        filter (\<lambda>c. \<not> py_isspace c) (expand rx gs (groups_only rx)) =
          filter (\<lambda>c. \<not> py_isspace c) (concat gs) \<and>
        (groups rx = [(0, length (atoms rx))] \<longrightarrow> expand rx gs (groups_only rx) = concat gs))"

section \<open>add_debug_final.py: the substitution for view.js\<close>

definition view_marker :: pystr where
  "view_marker = ascii ''SLOT CLICKED (view.js):''"

definition final_view_rx :: regex where
  "final_view_rx = \<lparr>atoms =
     [Lit (ascii ''const cardInSlot = slotElement.querySelector('[data-card-id]');''),
      Spaces,
      Lit (ascii ''const cardId = cardInSlot ? (cardInSlot.dataset.runtimeId || cardInSlot.dataset.cardId) : null;'')],
     groups = [(0, 3)]\<rparr>"

definition final_view_repl :: "repl list" where
  "final_view_repl = [Grp 1,
      Txt ([10, 10] @ ascii ''            console.log('SLOT CLICKED (view.js):', {'' @
        [10] @ ascii ''                owner,'' @ [10] @ ascii ''                zone,'' @
        [10] @ ascii ''                index,'' @ [10] @
        ascii ''                hasCard: !!cardId,'' @ [10] @
        ascii ''                cardId'' @ [10] @ ascii ''            });'')]"

definition view_js_text :: "pystr \<Rightarrow> outcome" where
  "view_js_text content =
     (if py_in view_marker content then Skipped
      else Updated (re_sub final_view_rx final_view_repl content 1))"

section \<open>add_debug_final.py: files, output and the main block\<close>

text \<open>
  A file can or cannot be opened for reading and for writing, and has a text. The world
  is the file system, the list of the writes performed (path and text written, in order)
  and the lines printed. A function returns the exception that left it, if any, and the
  world it leaves behind.
\<close>

record pyfile =
  readable :: bool
  writable :: bool
  ftext :: pystr

record world =
  fs :: "string \<Rightarrow> pyfile"
  writes :: "(string \<times> pystr) list"
  stdout :: "pystr list"

definition open_read :: "world \<Rightarrow> string \<Rightarrow> py_error + pystr" where
  "open_read w p = (if readable (fs w p) then Inr (ftext (fs w p)) else Inl IOError)"

definition open_write :: "world \<Rightarrow> string \<Rightarrow> pystr \<Rightarrow> py_error + world" where
  "open_write w p s =
     (if writable (fs w p)
      then Inr (w\<lparr>fs := (fs w)(p := (fs w p)\<lparr>ftext := s\<rparr>), writes := writes w @ [(p, s)]\<rparr>)
      else Inl IOError)"

definition print :: "world \<Rightarrow> pystr \<Rightarrow> world" where
  "print w s = w\<lparr>stdout := stdout w @ [s]\<rparr>"

definition game_path :: string where
  "game_path = ''c:/Projects/pokemon-card-battle/pokemon-card-battle/src/js/game.js''"

definition view_path :: string where
  "view_path = ''c:/Projects/pokemon-card-battle/pokemon-card-battle/src/js/view.js''"

definition interaction_path :: string where
  "interaction_path =
     ''c:/Projects/pokemon-card-battle/pokemon-card-battle/src/js/three/interaction.js''"

definition final_add_logs_to_game_js :: "world \<Rightarrow> py_error option \<times> world" where
  "final_add_logs_to_game_js w =
     (case open_read w game_path of
        Inl x \<Rightarrow> (Some x, w)
      | Inr content \<Rightarrow>
         (case game_js_text content of
            Inl x \<Rightarrow> (Some x, w)
          | Inr Skipped \<Rightarrow> (None, print w (ascii ''[SKIP] game.js already has debug logs''))
          | Inr (Updated c) \<Rightarrow>
             (case open_write w game_path c of
                Inl x \<Rightarrow> (Some x, w)
              | Inr w' \<Rightarrow> (None, print w' (ascii ''[OK] Updated game.js'')))))"

definition final_add_logs_to_view_js :: "world \<Rightarrow> py_error option \<times> world" where
  "final_add_logs_to_view_js w =
     (case open_read w view_path of
        Inl x \<Rightarrow> (Some x, w)
      | Inr content \<Rightarrow>
         (case view_js_text content of
            Skipped \<Rightarrow> (None, print w (ascii ''[SKIP] view.js already has debug logs''))
          | Updated c \<Rightarrow>
             (case open_write w view_path c of
                Inl x \<Rightarrow> (Some x, w)
              | Inr w' \<Rightarrow> (None, print w' (ascii ''[OK] Updated view.js'')))))"

definition final_add_logs_to_interaction_js :: "world \<Rightarrow> py_error option \<times> world" where
  "final_add_logs_to_interaction_js w =
     (case open_read w interaction_path of
        Inl x \<Rightarrow> (Some x, w)
      | Inr content \<Rightarrow>
         (case interaction_js_text content of
            Inl x \<Rightarrow> (Some x, w)
          | Inr Skipped \<Rightarrow>
             (None, print w (ascii ''[SKIP] interaction.js already has debug logs''))
          | Inr (Updated c) \<Rightarrow>
             (case open_write w interaction_path c of
                Inl x \<Rightarrow> (Some x, w)
              | Inr w' \<Rightarrow> (None, print w' (ascii ''[OK] Updated interaction.js'')))))"

definition final_summary :: "pystr list" where
  "final_summary =
     [10 # ascii ''[DONE] All debug logs added!'',
      10 # ascii ''Logs added:'',
      ascii ''- Card Click: Basic click information'',
      ascii ''- BLOCKED: When clicks are blocked and why'',
      ascii ''- INFO: Additional information'',
      ascii ''- ALLOWED: When clicks are allowed'',
      ascii ''- SLOT CLICKED: When a slot is clicked in view'',
      ascii ''- THREE.JS MOUSE DOWN: When 3D objects are clicked'',
      ascii ''- DRAG BLOCKED: When dragging is blocked'']"

text \<open>The \<open>__main__\<close> block: no exception is caught, so the first one ends the run.\<close>

definition final_main :: "world \<Rightarrow> py_error option \<times> world" where
  "final_main w =
     (case final_add_logs_to_game_js (print w (ascii ''Adding debug logs...'')) of
        (Some x, w1) \<Rightarrow> (Some x, w1)
      | (None, w1) \<Rightarrow>
         (case final_add_logs_to_view_js w1 of
            (Some x, w2) \<Rightarrow> (Some x, w2)
          | (None, w2) \<Rightarrow>
             (case final_add_logs_to_interaction_js w2 of
                (Some x, w3) \<Rightarrow> (Some x, w3)
              | (None, w3) \<Rightarrow> (None, fold (\<lambda>s w. print w s) final_summary w3))))"

section \<open>add_debug_logs_simple.py: the substitutions for game.js\<close>

definition simple_game1_rx :: regex where
  "simple_game1_rx = \<lparr>atoms =
     [Lit (ascii ''async _handleCardClick(dataset) {''),
      Spaces,
      Lit (ascii ''const { owner, zone, cardId, index } = dataset;''),
      Spaces],
     groups = [(0, 3)]\<rparr>"

definition simple_game1_repl :: "repl list" where
  "simple_game1_repl = [Grp 1,
      Txt ([10, 10] @ ascii ''        // DEBUG: Click event occurred'' @ [10] @
        ascii ''        console.log('Card Click:', {'' @ [10] @
        ascii ''            owner,'' @ [10] @ ascii ''            zone,'' @ [10] @
        ascii ''            cardId,'' @ [10] @ ascii ''            index,'' @ [10] @
        ascii ''            currentPhase: this.state.phase,'' @ [10] @
        ascii ''            turnPlayer: this.state.turnPlayer,'' @ [10] @
        ascii ''            isProcessing: this.state.isProcessing'' @ [10] @
        ascii ''        });'' @ [10, 10] @ ascii ''        '')]"

definition simple_game2_rx :: regex where
  "simple_game2_rx = \<lparr>atoms =
     [Lit (ascii ''if (this.state.isProcessing) {''),
      Spaces,
      Lit (ascii ''return;'')],
     groups = [(0, 1), (2, 3)]\<rparr>"

definition simple_game2_repl :: "repl list" where
  "simple_game2_repl = [Grp 1,
      Txt ([10] @ ascii ''            console.log('BLOCKED: isProcessing = true');'' @
        [10] @ ascii ''            ''),
      Grp 2]"

definition simple_game3_rx :: regex where
  "simple_game3_rx = \<lparr>atoms =
     [Lit (ascii ''if (this.state.turnPlayer === 'player' && owner === 'cpu') {'')],
     groups = [(0, 1)]\<rparr>"

definition simple_game3_repl :: "repl list" where
  "simple_game3_repl = [Grp 1,
      Txt ([10] @
        ascii ''            console.log('BLOCKED: Player turn, CPU card clicked', { zone });'')]"

definition simple_game4_rx :: regex where
  "simple_game4_rx = \<lparr>atoms =
     [Lit (ascii ''// CPU'' @
        [12398, 12459, 12540, 12489, 12399, 24773, 22577, 34920, 31034, 12398, 12415, 35377, 21487]),
      DotStar,
      Lit ([10]),
      Spaces,
      Lit (ascii ''if (zone === 'active' || zone === 'bench') {'')],
     groups = [(0, 5)]\<rparr>"

definition simple_game4_repl :: "repl list" where
  "simple_game4_repl = [Grp 1,
      Txt ([10] @
        ascii ''                console.log('INFO: Info display allowed for CPU active/bench');'')]"

definition simple_game5_rx :: regex where
  "simple_game5_rx = \<lparr>atoms =
     [Lit (ascii ''if (this.state.turnPlayer === 'cpu' && owner === 'player') {''),
      Spaces,
      Lit (ascii ''// CPU'' @
        [12479, 12540, 12531, 20013, 12399, 12503, 12524, 12452, 12516, 12540, 12459, 12540, 12489, 12434, 12463, 12522, 12483, 12463, 19981, 21487])],
     groups = [(0, 1), (2, 3)]\<rparr>"

definition simple_game5_repl :: "repl list" where
  "simple_game5_repl = [Grp 1,
      Txt ([10] @
        ascii ''            console.log('BLOCKED: CPU turn, Player card clicked');'' @
        [10] @ ascii ''            ''),
      Grp 2]"

definition simple_game6_rx :: regex where
  "simple_game6_rx = \<lparr>atoms =
     [Lit (ascii ''// Handle different phases'')],
     groups = [(0, 1)]\<rparr>"

definition simple_game6_repl :: "repl list" where
  "simple_game6_repl = [Txt (ascii ''console.log('ALLOWED: Click allowed, processing...');'' @
        [10, 10] @ ascii ''        ''),
      Grp 1]"

definition simple_game_js_text :: "pystr \<Rightarrow> pystr" where
  "simple_game_js_text content =
     (let content = re_sub simple_game1_rx simple_game1_repl content 0;
          content = re_sub simple_game2_rx simple_game2_repl content 1;
          content = re_sub simple_game3_rx simple_game3_repl content 1;
          content = re_sub simple_game4_rx simple_game4_repl content 0;
          content = re_sub simple_game5_rx simple_game5_repl content 0;
          content = re_sub simple_game6_rx simple_game6_repl content 1
      in content)"

text \<open>The six substitutions in the order of the function, each with its \<open>count\<close>.\<close>

definition simple_game_rules :: "(regex \<times> repl list \<times> nat) list" where
  "simple_game_rules =
     [(simple_game1_rx, simple_game1_repl, 0), (simple_game2_rx, simple_game2_repl, 1),
      (simple_game3_rx, simple_game3_repl, 1), (simple_game4_rx, simple_game4_repl, 0),
      (simple_game5_rx, simple_game5_repl, 0), (simple_game6_rx, simple_game6_repl, 1)]"

definition simple_add_logs_to_game_js :: "world \<Rightarrow> py_error option \<times> world" where
  "simple_add_logs_to_game_js w =
     (case open_read w game_path of
        Inl x \<Rightarrow> (Some x, w)
      | Inr content \<Rightarrow>
         (case open_write w game_path (simple_game_js_text content) of
            Inl x \<Rightarrow> (Some x, w)
          | Inr w' \<Rightarrow> (None, print w' (ascii ''[OK] Updated game.js''))))"

section \<open>add_debug_logs.py: the substitutions for game.js\<close>

definition logs_game1_rx :: regex where
  "logs_game1_rx = \<lparr>atoms =
     [Lit (ascii ''async _handleCardClick(dataset) {''),
      Spaces,
      Lit (ascii ''const { owner, zone, cardId, index } = dataset;''),
      Spaces],
     groups = [(0, 3)]\<rparr>"

definition logs_game1_repl :: "repl list" where
  "logs_game1_repl = [Grp 1,
      Txt ([10, 10] @ ascii ''        // '' @ [128269] @ ascii '' '' @
        [12487, 12496, 12483, 12464, 12525, 12464] @ ascii '': '' @
        [12463, 12522, 12483, 12463, 12452, 12505, 12531, 12488, 30330, 29983, 10] @
        ascii ''        console.log('' @ [39, 128433, 65039] @ ascii '' Card Click:', {'' @
        [10] @ ascii ''            owner,'' @ [10] @ ascii ''            zone,'' @ [10] @
        ascii ''            cardId,'' @ [10] @ ascii ''            index,'' @ [10] @
        ascii ''            currentPhase: this.state.phase,'' @ [10] @
        ascii ''            turnPlayer: this.state.turnPlayer,'' @ [10] @
        ascii ''            isProcessing: this.state.isProcessing'' @ [10] @
        ascii ''        });'' @ [10, 10] @ ascii ''        '')]"

definition logs_game2_rx :: regex where
  "logs_game2_rx = \<lparr>atoms =
     [Lit (ascii ''// '' @
        [20966, 29702, 20013, 12398, 22580, 21512, 12399, 12463, 12522, 12483, 12463, 12434, 28961, 35222]),
      Spaces,
      Lit (ascii ''if (this.state.isProcessing) {'')],
     groups = [(0, 3)]\<rparr>"

definition logs_game2_repl :: "repl list" where
  "logs_game2_repl = [Grp 1,
      Txt ([10] @ ascii ''            console.log('' @ [39, 9940] @
        ascii '' Click blocked: isProcessing = true');'')]"

definition logs_game3_rx :: regex where
  "logs_game3_rx = \<lparr>atoms =
     [Lit (ascii ''// '' @
        [12479, 12540, 12531, 12503, 12524, 12452, 12516, 12540, 12392, 25152, 26377, 32773, 12398, 12481, 12455, 12483, 12463, 65288, 24773, 22577, 34920, 31034, 12434, 38500, 12367, 65289]),
      Spaces,
      Lit (ascii ''if (this.state.turnPlayer === 'player' && owner === 'cpu') {'')],
     groups = [(0, 3)]\<rparr>"

definition logs_game3_repl :: "repl list" where
  "logs_game3_repl = [Grp 1,
      Txt ([10] @ ascii ''            console.log('' @ [39, 9940] @
        ascii '' Click blocked: Player turn, CPU card clicked', { zone });'')]"

definition logs_game4_rx :: regex where
  "logs_game4_rx = \<lparr>atoms =
     [Lit (ascii ''// CPU'' @
        [12398, 12459, 12540, 12489, 12399, 24773, 22577, 34920, 31034, 12398, 12415, 35377, 21487, 65288, 12450, 12463, 12486, 12451, 12502, 12539, 12505, 12531, 12481, 12398, 12415, 65289]),
      Spaces,
      Lit (ascii ''if (zone === 'active' || zone === 'bench') {'')],
     groups = [(0, 3)]\<rparr>"

definition logs_game4_repl :: "repl list" where
  "logs_game4_repl = [Grp 1,
      Txt ([10] @ ascii ''                console.log('' @ [39, 8505, 65039] @
        ascii '' Info display allowed for CPU active/bench');'')]"

definition logs_game5_rx :: regex where
  "logs_game5_rx = \<lparr>atoms =
     [Lit (ascii ''if (this.state.turnPlayer === 'cpu' && owner === 'player') {''),
      Spaces,
      Lit (ascii ''// CPU'' @
        [12479, 12540, 12531, 20013, 12399, 12503, 12524, 12452, 12516, 12540, 12459, 12540, 12489, 12434, 12463, 12522, 12483, 12463, 19981, 21487])],
     groups = [(0, 3)]\<rparr>"

definition logs_game5_repl :: "repl list" where
  "logs_game5_repl = [Grp 1,
      Txt ([10] @ ascii ''            console.log('' @ [39, 9940] @
        ascii '' Click blocked: CPU turn, Player card clicked');'')]"

definition logs_game6_rx :: regex where
  "logs_game6_rx = \<lparr>atoms =
     [Lit ([10]),
      Spaces,
      Lit (ascii ''// Handle different phases''),
      Spaces,
      Lit (ascii ''switch (this.state.phase) {'')],
     groups = [(0, 5)]\<rparr>"

definition logs_game6_repl :: "repl list" where
  "logs_game6_repl = [Txt ([10, 10] @ ascii ''        console.log('' @ [39, 9989] @
        ascii '' Click allowed, processing...');'' @ [10]),
      Grp 1]"

definition logs_game_js_text :: "pystr \<Rightarrow> pystr" where
  "logs_game_js_text content =
     (let content = re_sub logs_game1_rx logs_game1_repl content 0;
          content = re_sub logs_game2_rx logs_game2_repl content 0;
          content = re_sub logs_game3_rx logs_game3_repl content 0;
          content = re_sub logs_game4_rx logs_game4_repl content 0;
          content = re_sub logs_game5_rx logs_game5_repl content 0;
          content = re_sub logs_game6_rx logs_game6_repl content 0
      in content)"

definition logs_game_rules :: "(regex \<times> repl list \<times> nat) list" where
  "logs_game_rules =
     [(logs_game1_rx, logs_game1_repl, 0), (logs_game2_rx, logs_game2_repl, 0),
      (logs_game3_rx, logs_game3_repl, 0), (logs_game4_rx, logs_game4_repl, 0),
      (logs_game5_rx, logs_game5_repl, 0), (logs_game6_rx, logs_game6_repl, 0)]"

definition logs_add_logs_to_game_js :: "world \<Rightarrow> py_error option \<times> world" where
  "logs_add_logs_to_game_js w =
     (case open_read w game_path of
        Inl x \<Rightarrow> (Some x, w)
      | Inr content \<Rightarrow>
         (case open_write w game_path (logs_game_js_text content) of
            Inl x \<Rightarrow> (Some x, w)
          | Inr w' \<Rightarrow> (None, print w' ([9989] @ ascii '' Updated '' @ ascii game_path))))"

section \<open>add_debug_logs.py: the function for board-event-handler.js\<close>

text \<open>
  The only function of add_debug_logs.py with a guard. Behind the guard it replaces one
  log statement by another; \<open>pattern2\<close> and \<open>replacement2\<close> are assigned but never applied.
\<close>

definition board_path :: string where
  "board_path =
     ''c:/Projects/pokemon-card-battle/pokemon-card-battle/src/js/view/board-event-handler.js''"

definition board_marker :: pystr where
  "board_marker = [9940] @ ascii '' BoardEventHandler: disabled''"

definition board_rx :: regex where
  "board_rx = \<lparr>atoms =
     [Lit (ascii ''console.log('' @ [39, 128433, 65039] @
        ascii '' BoardEventHandler: disabled, ignoring');'')],
     groups = []\<rparr>"

definition board_repl :: "repl list" where
  "board_repl = [Txt (ascii ''console.log('' @ [39, 9940] @
     ascii '' BoardEventHandler: disabled');'')]"

definition board_js_text :: "pystr \<Rightarrow> outcome" where
  "board_js_text content =
     (if py_in board_marker content then Skipped
      else Updated (re_sub board_rx board_repl content 0))"

definition logs_add_logs_to_board_event_handler_js :: "world \<Rightarrow> py_error option \<times> world" where
  "logs_add_logs_to_board_event_handler_js w =
     (case open_read w board_path of
        Inl x \<Rightarrow> (Some x, w)
      | Inr content \<Rightarrow>
         (case board_js_text content of
            Skipped \<Rightarrow>
              (None, print w ([8505, 65039] @ ascii ''  '' @ ascii board_path @
                 ascii '' already has debug logs''))
          | Updated c \<Rightarrow>
             (case open_write w board_path c of
                Inl x \<Rightarrow> (Some x, w)
              | Inr w' \<Rightarrow> (None, print w' ([9989] @ ascii '' Updated '' @ ascii board_path)))))"

section \<open>Sample inputs\<close>

text \<open>
  Concrete file systems on which the functions are run below: \<open>world_of\<close> holds the
  listed files, readable and writable, and no other file.
\<close>

definition no_file :: pyfile where
  "no_file = \<lparr>readable = False, writable = False, ftext = []\<rparr>"

definition a_file :: "pystr \<Rightarrow> pyfile" where
  "a_file s = \<lparr>readable = True, writable = True, ftext = s\<rparr>"

definition world_of :: "(string \<times> pystr) list \<Rightarrow> world" where
  "world_of fl =
     \<lparr>fs = (\<lambda>p. case map_of fl p of None \<Rightarrow> no_file | Some s \<Rightarrow> a_file s),
      writes = [], stdout = []\<rparr>"

definition guard_world :: world where
  "guard_world = world_of
     [(game_path, ascii ''// DEBUG: Click event occurred'' @ [10] @ game_anchor5),
      (view_path, ascii ''SLOT CLICKED (view.js):''),
      (interaction_path, ascii ''THREE.JS MOUSE DOWN:'' @ [10] @ inter_anchor1)]"

definition plain_world :: world where
  "plain_world = world_of [(game_path, ascii ''let x = 1;'')]"

definition empty_world :: world where
  "empty_world = world_of [(game_path, [])]"

definition view_sample :: pystr where
  "view_sample =
     ascii ''const cardInSlot = slotElement.querySelector('[data-card-id]');'' @ [10] @
     ascii ''const cardId = cardInSlot ? (cardInSlot.dataset.runtimeId || cardInSlot.dataset.cardId) : null;''"

definition view_only_world :: world where
  "view_only_world = world_of [(view_path, view_sample)]"

definition read_only_world :: world where
  "read_only_world =
     \<lparr>fs = (\<lambda>p. \<lparr>readable = True, writable = False, ftext = []\<rparr>), writes = [], stdout = []\<rparr>"

definition game_done_world :: world where
  "game_done_world = world_of [(game_path, game_marker)]"

definition rule1_world :: world where
  "rule1_world = world_of
     [(game_path, ascii ''async _handleCardClick(dataset) {'' @ [10] @ game_anchor1)]"

definition conflict_text :: pystr where
  "conflict_text = py_join_nl [game_anchor5, game_anchor6, ascii ''switch (this.state.phase) {'']"

definition conflict_world :: world where
  "conflict_world = world_of [(game_path, conflict_text)]"

definition tab_sample :: pystr where
  "tab_sample =
     ascii ''async _handleCardClick(dataset) {'' @ [10] @
     ascii ''  const { owner, zone, cardId, index } = dataset;'' @ [9] @ ascii ''foo();''"

definition tab_result :: pystr where
  "tab_result =
     ascii ''async _handleCardClick(dataset) {'' @ [10] @
     ascii ''  const { owner, zone, cardId, index } = dataset;'' @ [10, 10] @
     ascii ''        // DEBUG: Click event occurred'' @ [10] @
     ascii ''        console.log('Card Click:', {'' @ [10] @
     ascii ''            owner,'' @ [10] @
     ascii ''            zone,'' @ [10] @
     ascii ''            cardId,'' @ [10] @
     ascii ''            index,'' @ [10] @
     ascii ''            currentPhase: this.state.phase,'' @ [10] @
     ascii ''            turnPlayer: this.state.turnPlayer,'' @ [10] @
     ascii ''            isProcessing: this.state.isProcessing'' @ [10] @
     ascii ''        });'' @ [10, 10] @
     ascii ''        foo();''"

definition logs_conflict_head :: pystr where "logs_conflict_head = ascii ''if (this.state.turnPlayer === 'cpu' && owner === 'player') {'' @ [10] @ ascii ''// CPU'' @ [12479, 12540, 12531, 20013, 12399, 12503, 12524, 12452, 12516, 12540, 12459, 12540, 12489, 12434, 12463, 12522, 12483, 12463, 19981, 21487]"
definition logs_conflict_tail :: pystr where "logs_conflict_tail = [10] @ ascii '' // Handle different phases'' @ [10] @ ascii ''switch (this.state.phase) {''"
definition logs_ins5 :: pystr where "logs_ins5 = [10] @ ascii ''            console.log('' @ [39, 9940] @ ascii '' Click blocked: CPU turn, Player card clicked');''"
definition logs_ins6 :: pystr where "logs_ins6 = [10, 10] @ ascii ''        console.log('' @ [39, 9989] @ ascii '' Click allowed, processing...');'' @ [10]"

definition index_error_world :: world where
  "index_error_world = world_of [(game_path, ascii ''// Handle different phases'')]"

definition two_done_world :: world where
  "two_done_world = world_of [(game_path, game_marker), (view_path, view_marker)]"

definition game_reinsert_world :: world where
  "game_reinsert_world = world_of [(game_path, py_join_nl [game_anchor5, game_log5])]"

definition logs_reinsert_world :: world where
  "logs_reinsert_world = world_of [(game_path, logs_conflict_head @ logs_ins5)]"

definition board_done_world :: world where
  "board_done_world = world_of [(board_path, board_marker)]"

section \<open>Facts about the string operations\<close>

lemma py_in_sublist: "py_in s t = sublist s t"
  by (induction t) (auto simp: sublist_Cons_right)

lemma py_split_nl_nonempty: "py_split_nl s \<noteq> []"
  by (induction s) (auto split: list.splits)

lemma py_join_nl_Cons: "ls \<noteq> [] \<Longrightarrow> py_join_nl (l # ls) = l @ 10 # py_join_nl ls"
  by (cases ls) auto

lemma py_join_split: "py_join_nl (py_split_nl s) = s"
proof (induction s)
  case Nil
  show ?case by simp
next
  case (Cons c cs)
  obtain l ls where sp: "py_split_nl cs = l # ls"
    using py_split_nl_nonempty [of cs] by (cases "py_split_nl cs") auto
  show ?case
  proof (cases "c = 10")
    case True
    then show ?thesis
      using Cons.IH by (simp add: py_join_nl_Cons py_split_nl_nonempty)
  next
    case False
    then show ?thesis
      using Cons.IH sp by (cases ls) auto
  qed
qed

lemma py_split_no_nl: "l \<in> set (py_split_nl s) \<Longrightarrow> 10 \<notin> set l"
  by (induction s arbitrary: l) (auto split: if_splits list.splits)

lemma py_join_append:
  "xs \<noteq> [] \<Longrightarrow> ys \<noteq> [] \<Longrightarrow> py_join_nl (xs @ ys) = py_join_nl xs @ 10 # py_join_nl ys"
  by (induction xs rule: py_join_nl.induct) (auto simp: py_join_nl_Cons)

lemma sublist_py_join: "l \<in> set ls \<Longrightarrow> sublist l (py_join_nl ls)"
proof (induction ls rule: py_join_nl.induct)
  case 1
  then show ?case by simp
next
  case (2 l')
  then show ?case by simp
next
  case (3 a b ls)
  show ?case
  proof (cases "l = a")
    case True
    then show ?thesis by simp
  next
    case False
    with 3 have "sublist l (py_join_nl (b # ls))" by simp
    then obtain p q where "py_join_nl (b # ls) = p @ l @ q"
      by (auto simp: sublist_def)
    then have "py_join_nl (a # b # ls) = (a @ 10 # p) @ l @ q" by simp
    then show ?thesis unfolding sublist_def by blast
  qed
qed

lemma subseq_py_join: "subseq xs ys \<Longrightarrow> subseq (py_join_nl xs) (py_join_nl ys)"
proof (induction rule: list_emb.induct)
  case (list_emb_Nil ys)
  show ?case by simp
next
  case (list_emb_Cons xs ys y)
  show ?case
  proof (cases "ys = []")
    case True
    then show ?thesis using list_emb_Cons by (auto dest: list_emb_Nil2)
  next
    case False
    have "subseq (py_join_nl xs) ((y @ [10]) @ py_join_nl ys)"
      using list_emb_Cons.IH by (rule list_emb_append2)
    then show ?thesis using False by (simp add: py_join_nl_Cons)
  qed
next
  case (list_emb_Cons2 x y xs ys)
  show ?case
  proof (cases "xs = []")
    case True
    then show ?thesis using list_emb_Cons2 by (cases ys) auto
  next
    case False
    then have "ys \<noteq> []" using list_emb_Cons2 by (auto dest: list_emb_Nil2)
    moreover have "subseq (x @ 10 # py_join_nl xs) (x @ 10 # py_join_nl ys)"
      using list_emb_Cons2.IH by (intro list_emb_append_mono) auto
    ultimately show ?thesis using False list_emb_Cons2 by (simp add: py_join_nl_Cons)
  qed
qed

section \<open>The line scanner, iteration by iteration\<close>

lemma py_insert_m1_snoc: "py_insert_m1 (xs @ [y]) x = xs @ [x, y]"
  by (simp add: py_insert_m1_def)

lemma py_insert_m1_snoc2: "py_insert_m1 (xs @ [z, y]) x = xs @ [z, x, y]"
  by (simp add: py_insert_m1_def butlast_append)

lemma elif_cases:
  "elif c t e = r \<longleftrightarrow> (\<exists>x. c = Inl x \<and> r = Inl x) \<or> (c = Inr True \<and> r = t) \<or> (c = Inr False \<and> r = e)"
  by (auto simp: elif_def split: sum.splits)

lemma game_body_branch:
  "game_body lines i nl =
     (case game_branch lines i of Inl x \<Rightarrow> Inl x | Inr k \<Rightarrow> Inr (nl @ game_place k (lines ! i)))"
  unfolding game_body_def game_branch_def game_place_def game_ins_def Let_def elif_def
  by (simp add: py_insert_m1_snoc py_insert_m1_snoc2 split: sum.splits)

lemma game_while_Inr:
  "game_while lines i acc = Inr out \<Longrightarrow>
     (\<forall>j. i \<le> j \<and> j < length lines \<longrightarrow> (\<exists>k. game_branch lines j = Inr k)) \<and>
     out = acc @ concat (map (\<lambda>j. game_place (projr (game_branch lines j)) (lines ! j)) [i..<length lines])"
proof (induction lines i acc rule: game_while.induct)
  case (1 lines i acc)
  show ?case
  proof (cases "i < length lines")
    case False
    then show ?thesis using "1.prems" by (auto simp: game_while.simps)
  next
    case True
    then obtain k where k: "game_branch lines i = Inr k"
      and w: "game_while lines (i + 1) (acc @ game_place k (lines ! i)) = Inr out"
      using "1.prems" by (subst (asm) game_while.simps) (auto simp: game_body_branch split: sum.splits)
    have b: "game_body lines i acc = Inr (acc @ game_place k (lines ! i))"
      using k by (simp add: game_body_branch)
    note ih = "1.IH" [OF True b w]
    have "\<And>j. i \<le> j \<Longrightarrow> j < length lines \<Longrightarrow> \<exists>k. game_branch lines j = Inr k"
    proof -
      fix j assume "i \<le> j" "j < length lines"
      then show "\<exists>k. game_branch lines j = Inr k"
        using ih k by (cases "j = i") auto
    qed
    moreover have "[i..<length lines] = i # [i + 1..<length lines]"
      using True by (simp add: upt_conv_Cons)
    ultimately show ?thesis using ih k by simp
  qed
qed

lemma game_while_total:
  "(\<forall>j. i \<le> j \<and> j < length lines \<longrightarrow> (\<exists>k. game_branch lines j = Inr k)) \<Longrightarrow>
     \<exists>out. game_while lines i acc = Inr out"
proof (induction lines i acc rule: game_while.induct)
  case (1 lines i acc)
  show ?case
  proof (cases "i < length lines")
    case False
    then show ?thesis by (simp add: game_while.simps)
  next
    case True
    then obtain k where k: "game_branch lines i = Inr k" using "1.prems" by auto
    have b: "game_body lines i acc = Inr (acc @ game_place k (lines ! i))"
      using k by (simp add: game_body_branch)
    have "\<exists>out. game_while lines (i + 1) (acc @ game_place k (lines ! i)) = Inr out"
      using "1.IH" [OF True b] "1.prems" by simp
    then show ?thesis using True b by (subst game_while.simps) simp
  qed
qed

lemma game_while_Inl:
  "game_while lines i acc = Inl x \<Longrightarrow> \<exists>j. i \<le> j \<and> j < length lines \<and> game_branch lines j = Inl x"
proof (induction lines i acc rule: game_while.induct)
  case (1 lines i acc)
  show ?case
  proof (cases "i < length lines")
    case False
    then show ?thesis using "1.prems" by (simp add: game_while.simps)
  next
    case True
    show ?thesis
    proof (cases "game_branch lines i")
      case (Inl y)
      then have "x = y" using "1.prems" True
        by (subst (asm) game_while.simps) (simp add: game_body_branch)
      then show ?thesis using Inl True by auto
    next
      case (Inr k)
      have b: "game_body lines i acc = Inr (acc @ game_place k (lines ! i))"
        using Inr by (simp add: game_body_branch)
      have "game_while lines (i + 1) (acc @ game_place k (lines ! i)) = Inl x"
        using "1.prems" True b by (subst (asm) game_while.simps) simp
      from "1.IH" [OF True b this] show ?thesis
        by (metis Suc_eq_plus1 Suc_leD)
    qed
  qed
qed

lemma in_line_prev:
  "i < length lines \<Longrightarrow>
     in_line s lines (int i - 1) = Inr (py_in s (if i = 0 then last lines else lines ! (i - 1)))"
  by (cases "i = 0")
     (auto simp: in_line_def py_index_def Let_def last_conv_nth nat_diff_distrib' nat_add_distrib)

lemma in_line_next:
  "in_line s lines (int i + 1) =
     (if i + 1 < length lines then Inr (py_in s (lines ! (i + 1))) else Inl IndexError)"
  by (auto simp: in_line_def py_index_def Let_def nat_add_distrib)

lemma sublist_dropWhile_keep:
  assumes "sublist p l" "p \<noteq> []" "\<not> P (hd p)"
  shows "sublist p (dropWhile P l)"
proof -
  from assms(1) obtain a b where l: "l = a @ p @ b" by (auto simp: sublist_def)
  have "dropWhile P (p @ b) = p @ b" using assms(2,3) by (cases p) auto
  then have "dropWhile P l = (if \<forall>x\<in>set a. P x then p @ b else dropWhile P a @ p @ b)"
    unfolding l by (simp add: dropWhile_append)
  then show ?thesis by (auto simp: sublist_def intro: exI [of _ "[]"])
qed

lemma sublist_py_strip:
  assumes "sublist p l" "p \<noteq> []" "\<not> py_isspace (hd p)" "\<not> py_isspace (last p)"
  shows "sublist p (py_strip l)"
proof -
  have "sublist p (dropWhile py_isspace l)"
    using assms(1,2,3) by (rule sublist_dropWhile_keep)
  then have "sublist (rev p) (rev (dropWhile py_isspace l))" by (simp add: sublist_rev)
  moreover have "rev p \<noteq> []" "\<not> py_isspace (hd (rev p))"
    using assms(2,4) by (simp_all add: hd_rev)
  ultimately have "sublist (rev p) (dropWhile py_isspace (rev (dropWhile py_isspace l)))"
    by (rule sublist_dropWhile_keep)
  then have "sublist (rev (rev p)) (py_strip l)"
    unfolding py_strip_def by (subst sublist_rev)
  then show ?thesis by simp
qed

lemma anchor1_ends:
  "game_anchor1 \<noteq> []" "\<not> py_isspace (hd game_anchor1)" "\<not> py_isspace (last game_anchor1)"
  by (simp_all add: game_anchor1_def ascii_def py_isspace_def)

lemma anchor6_no_anchor1:
  assumes "py_strip l = game_anchor6"
  shows "\<not> py_in game_anchor1 l"
proof
  assume "py_in game_anchor1 l"
  then have "sublist game_anchor1 (py_strip l)"
    using anchor1_ends by (simp add: py_in_sublist sublist_py_strip)
  then have "length game_anchor1 \<le> length game_anchor6"
    using assms by (auto dest: sublist_length_le)
  then show False by (simp add: game_anchor1_def game_anchor6_def ascii_def)
qed

lemma anchor6_distinct:
  "game_anchor6 \<noteq> game_anchor2" "game_anchor6 \<noteq> game_anchor3" "game_anchor6 \<noteq> game_anchor4"
  "game_anchor6 \<noteq> game_anchor5"
  by (simp_all add: game_anchor2_def game_anchor3_def game_anchor4_def game_anchor5_def
        game_anchor6_def ascii_def)

lemma game_cond1_val:
  "i < length lines \<Longrightarrow> game_cond1 lines i =
     Inr (py_in game_anchor1 (lines ! i) \<and>
          py_in game_ctx1 (if i = 0 then last lines else lines ! (i - 1)))"
  by (simp add: game_cond1_def py_and_def in_line_prev)

lemma game_cond2_val:
  "i < length lines \<Longrightarrow> game_cond2 lines i =
     Inr (py_strip (lines ! i) = game_anchor2 \<and> i > 0 \<and> py_in game_ctx2 (lines ! (i - 1)))"
  by (simp add: game_cond2_def py_and_def in_line_prev)

lemma game_cond3_val:
  "i < length lines \<Longrightarrow> game_cond3 lines i =
     Inr (py_strip (lines ! i) = game_anchor3 \<and> i > 0 \<and> py_in game_ctx3 (lines ! (i - 1)))"
  by (simp add: game_cond3_def py_and_def in_line_prev)

lemma game_cond4_val:
  "i < length lines \<Longrightarrow> game_cond4 lines i =
     Inr (py_strip (lines ! i) = game_anchor4 \<and>
          py_in game_ctx4 (if i = 0 then last lines else lines ! (i - 1)))"
  by (simp add: game_cond4_def py_and_def in_line_prev)

lemma game_cond6_val:
  "game_cond6 lines i =
     (if py_strip (lines ! i) = game_anchor6
      then (if i + 1 < length lines then Inr (py_in game_ctx6 (lines ! (i + 1)))
            else Inl IndexError)
      else Inr False)"
  by (simp add: game_cond6_def py_and_def in_line_next)

lemmas game_cond_vals =
  game_cond1_val game_cond2_val game_cond3_val game_cond4_val game_cond5_def game_cond6_val

lemma game_branch_Inl:
  assumes "i < length lines"
  shows "game_branch lines i = Inl x \<longleftrightarrow>
           x = IndexError \<and> length lines = i + 1 \<and> py_strip (lines ! i) = game_anchor6"
proof (cases "py_strip (lines ! i) = game_anchor6")
  case True
  then have "\<not> py_in game_anchor1 (lines ! i)" by (rule anchor6_no_anchor1)
  then show ?thesis
    using True assms anchor6_distinct
    by (auto simp: game_branch_def game_cond_vals elif_def)
next
  case False
  then show ?thesis
    using assms by (simp add: game_branch_def game_cond_vals elif_def)
qed

lemma game_marker'_marker: "py_in game_marker' c \<Longrightarrow> py_in game_marker c"
proof -
  have "game_marker' = ascii ''// '' @ game_marker"
    by (simp add: game_marker'_def game_marker_def ascii_def)
  then have "sublist game_marker game_marker'" by (metis sublist_append_leftI)
  then show "py_in game_marker' c \<Longrightarrow> py_in game_marker c"
    unfolding py_in_sublist by (rule sublist_order.order_trans)
qed

section \<open>The scanner for game.js as a whole\<close>

lemma game_js_text_index_error:
  "game_js_text content = Inl IndexError \<longleftrightarrow>
     \<not> py_in game_marker content \<and> py_strip (last (py_split_nl content)) = game_anchor6"
proof -
  let ?ls = "py_split_nl content"
  have ne: "?ls \<noteq> []" by (rule py_split_nl_nonempty)
  then have n: "length ?ls - 1 < length ?ls" by simp
  show ?thesis
  proof (cases "py_in game_marker content")
    case True
    then show ?thesis by (simp add: game_js_text_def)
  next
    case False
    then have nm: "\<not> py_in game_marker' content" using game_marker'_marker by blast
    show ?thesis
    proof
      assume "game_js_text content = Inl IndexError"
      then have "game_while ?ls 0 [] = Inl IndexError"
        using False nm by (simp add: game_js_text_def split: sum.splits)
      then obtain j where j: "j < length ?ls" "game_branch ?ls j = Inl IndexError"
        using game_while_Inl by blast
      then have "length ?ls = j + 1" "py_strip (?ls ! j) = game_anchor6"
        by (simp_all add: game_branch_Inl)
      then show "\<not> py_in game_marker content \<and> py_strip (last ?ls) = game_anchor6"
        using False ne by (simp add: last_conv_nth)
    next
      assume "\<not> py_in game_marker content \<and> py_strip (last ?ls) = game_anchor6"
      then have "game_branch ?ls (length ?ls - 1) = Inl IndexError"
        using ne n by (simp add: game_branch_Inl last_conv_nth)
      have "\<not> (\<exists>out. game_while ?ls 0 [] = Inr out)"
      proof
        assume "\<exists>out. game_while ?ls 0 [] = Inr out"
        then obtain out where "game_while ?ls 0 [] = Inr out" ..
        then have "\<exists>k. game_branch ?ls (length ?ls - 1) = Inr k"
          using game_while_Inr n by blast
        then show False using \<open>game_branch ?ls (length ?ls - 1) = Inl IndexError\<close> by simp
      qed
      then obtain x where x: "game_while ?ls 0 [] = Inl x"
        by (cases "game_while ?ls 0 []") auto
      then obtain j where "j < length ?ls" "game_branch ?ls j = Inl x"
        using game_while_Inl by blast
      then have "x = IndexError" by (simp add: game_branch_Inl)
      then show "game_js_text content = Inl IndexError"
        using x False nm by (simp add: game_js_text_def)
    qed
  qed
qed

lemma game_while_no_match:
  assumes "\<forall>i < length lines. game_branch lines i = Inr 0"
  shows "game_while lines 0 [] = Inr lines"
proof -
  from assms have "\<exists>out. game_while lines 0 [] = Inr out"
    by (intro game_while_total) auto
  then obtain out where out: "game_while lines 0 [] = Inr out" ..
  have "map (\<lambda>j. game_place (projr (game_branch lines j)) (lines ! j)) [0..<length lines] =
        map (\<lambda>j. [lines ! j]) [0..<length lines]"
    using assms by (simp add: game_place_def game_ins_def)
  moreover have "out =
      concat (map (\<lambda>j. game_place (projr (game_branch lines j)) (lines ! j)) [0..<length lines])"
    using game_while_Inr [OF out] by simp
  ultimately have "out = concat (map (\<lambda>j. [lines ! j]) [0..<length lines])"
    by (simp only:)
  also have "\<dots> = map (\<lambda>j. lines ! j) [0..<length lines]"
    by (induction "[0..<length lines]") (simp_all add: concat_map_singleton)
  also have "\<dots> = lines" by (rule map_nth)
  finally show ?thesis using out by simp
qed

lemma game_while_place:
  assumes "game_while lines 0 [] = Inr out" and "i < length lines"
    and "game_branch lines i = Inr k"
  shows "\<exists>pre post. out = pre @ game_place k (lines ! i) @ post"
proof -
  let ?f = "\<lambda>j. game_place (projr (game_branch lines j)) (lines ! j)"
  have out: "out = concat (map ?f [0..<length lines])"
    using game_while_Inr [OF assms(1)] by simp
  have "[0..<length lines] = [0..<i] @ [i..<length lines]"
    using assms(2) upt_add_eq_append [of 0 i "length lines - i"] by simp
  moreover have "[i..<length lines] = i # [Suc i..<length lines]"
    using assms(2) by (simp add: upt_conv_Cons)
  ultimately have "[0..<length lines] = [0..<i] @ i # [Suc i..<length lines]"
    by simp
  then have "out = concat (map ?f [0..<i]) @ ?f i @ concat (map ?f [Suc i..<length lines])"
    using out by simp
  then show ?thesis using assms(3) by auto
qed

lemma game_while_ok:
  assumes "lines \<noteq> []" and "py_strip (last lines) \<noteq> game_anchor6"
  shows "\<exists>out. game_while lines 0 [] = Inr out"
proof (rule game_while_total, intro allI impI)
  fix j assume j: "0 \<le> j \<and> j < length lines"
  have "\<not> (\<exists>x. game_branch lines j = Inl x)"
  proof
    assume "\<exists>x. game_branch lines j = Inl x"
    then obtain x where "game_branch lines j = Inl x" ..
    then have "length lines = j + 1" "py_strip (lines ! j) = game_anchor6"
      using j by (simp_all add: game_branch_Inl)
    then show False using assms by (simp add: last_conv_nth)
  qed
  then show "\<exists>k. game_branch lines j = Inr k"
    by (cases "game_branch lines j") auto
qed

lemma game_while_two_places:
  assumes "game_while lines 0 [] = Inr out" and "Suc i < length lines"
    and "game_branch lines i = Inr k" and "game_branch lines (Suc i) = Inr k'"
  shows "\<exists>pre post. out = pre @ game_place k (lines ! i) @ game_place k' (lines ! Suc i) @ post"
proof -
  let ?f = "\<lambda>j. game_place (projr (game_branch lines j)) (lines ! j)"
  have out: "out = concat (map ?f [0..<length lines])"
    using game_while_Inr [OF assms(1)] by simp
  have "[0..<length lines] = [0..<i] @ [i..<length lines]"
    using assms(2) upt_add_eq_append [of 0 i "length lines - i"] by simp
  moreover have "[i..<length lines] = i # Suc i # [Suc (Suc i)..<length lines]"
    using assms(2) by (simp add: upt_conv_Cons)
  ultimately have "[0..<length lines] = [0..<i] @ i # Suc i # [Suc (Suc i)..<length lines]"
    by simp
  then have "out = concat (map ?f [0..<i]) @ ?f i @ ?f (Suc i) @
                   concat (map ?f [Suc (Suc i)..<length lines])"
    using out by simp
  then show ?thesis using assms(3,4) by auto
qed

lemma game_js_guard:
  assumes "readable (fs w game_path)" and "py_in game_marker (ftext (fs w game_path))"
  shows "final_add_logs_to_game_js w =
           (None, w\<lparr>stdout := stdout w @ [ascii ''[SKIP] game.js already has debug logs'']\<rparr>)"
  using assms
  by (simp add: final_add_logs_to_game_js_def open_read_def game_js_text_def print_def)

lemma game_js_raises:
  assumes "readable (fs w game_path)" and "game_js_text (ftext (fs w game_path)) = Inl x"
  shows "final_add_logs_to_game_js w = (Some x, w)"
  using assms by (simp add: final_add_logs_to_game_js_def open_read_def)

lemma game_js_raises_main:
  assumes "final_add_logs_to_game_js (print w (ascii ''Adding debug logs...'')) = (Some x, w1)"
  shows "final_main w = (Some x, w1)"
  using assms by (simp add: final_main_def)

lemma game_js_writes:
  assumes "readable (fs w game_path)" and "writable (fs w game_path)"
    and "game_js_text (ftext (fs w game_path)) = Inr (Updated c')"
  shows "final_add_logs_to_game_js w =
           (None, w\<lparr>fs := (fs w)(game_path := (fs w game_path)\<lparr>ftext := c'\<rparr>),
                     writes := writes w @ [(game_path, c')],
                     stdout := stdout w @ [ascii ''[OK] Updated game.js'']\<rparr>)"
  using assms
  by (simp add: final_add_logs_to_game_js_def open_read_def open_write_def print_def)

lemma game_js_text_updated:
  assumes "\<not> py_in game_marker c" and "game_while (py_split_nl c) 0 [] = Inr out"
  shows "game_js_text c = Inr (Updated (py_join_nl out))"
  using assms game_marker'_marker by (auto simp: game_js_text_def)

section \<open>Evaluation on concrete inputs\<close>

lemmas game_lits =
  game_marker_def game_marker'_def game_anchor1_def game_anchor2_def game_anchor3_def
  game_anchor4_def game_anchor5_def game_anchor6_def game_ctx1_def game_ctx2_def game_ctx3_def
  game_ctx4_def game_ctx6_def game_block1_def game_log2_def game_log3_def game_log4_def
  game_log5_def game_log6_def ascii_def

lemmas game_evals =
  game_js_text_def game_while.simps game_body_def game_branch_def game_cond1_def game_cond2_def
  game_cond3_def game_cond4_def game_cond5_def game_cond6_def elif_def py_and_def in_line_def
  py_index_def py_insert_m1_def py_strip_def py_isspace_def Let_def

lemmas world_evals =
  world_of_def a_file_def no_file_def open_read_def open_write_def print_def
  game_path_def view_path_def interaction_path_def board_path_def

lemma print_only_stdout: "print w s = w\<lparr>stdout := stdout w @ [s]\<rparr>"
  by (simp add: print_def)

lemmas view_evals =
  view_js_text_def view_marker_def final_view_rx_def final_view_repl_def re_sub_def
  group_text_def py_isspace_def ascii_def

lemmas logs_lits =
  logs_game1_rx_def logs_game1_repl_def logs_game2_rx_def logs_game2_repl_def
  logs_game3_rx_def logs_game3_repl_def logs_game4_rx_def logs_game4_repl_def
  logs_game5_rx_def logs_game5_repl_def logs_game6_rx_def logs_game6_repl_def

section \<open>The out-of-range read in the scanner for game.js\<close>

text \<open>
  C10. \<open>add_logs_to_game_js\<close> of add_debug_final.py raises IndexError exactly when
  game.js can be read, lacks the marker \<open>DEBUG: Click event occurred\<close> and its last line
  strips to \<open>// Handle different phases\<close>: there the sixth branch reads \<open>lines[i+1]\<close>
  past the end of the list. Nothing catches the exception: the function leaves the world
  as it was, and the main block ends with IndexError after its first printed line. On
  every other world the function does not raise IndexError.
\<close>

theorem add_logs_to_game_js_index_error:
  "(fst (final_add_logs_to_game_js w) = Some IndexError \<longleftrightarrow>
      readable (fs w game_path) \<and> \<not> py_in game_marker (ftext (fs w game_path)) \<and>
      py_strip (last (py_split_nl (ftext (fs w game_path)))) = game_anchor6) \<and>
   (readable (fs w game_path) \<and> \<not> py_in game_marker (ftext (fs w game_path)) \<and>
    py_strip (last (py_split_nl (ftext (fs w game_path)))) = game_anchor6 \<longrightarrow>
      final_add_logs_to_game_js w = (Some IndexError, w) \<and>
      final_main w =
        (Some IndexError, w\<lparr>stdout := stdout w @ [ascii ''Adding debug logs...'']\<rparr>))"
proof (intro conjI impI)
  let ?c = "ftext (fs w game_path)"
  show "fst (final_add_logs_to_game_js w) = Some IndexError \<longleftrightarrow>
      readable (fs w game_path) \<and> \<not> py_in game_marker ?c \<and>
      py_strip (last (py_split_nl ?c)) = game_anchor6"
  proof (cases "readable (fs w game_path)")
    case False
    then show ?thesis by (simp add: final_add_logs_to_game_js_def open_read_def)
  next
    case True
    show ?thesis
    proof (cases "game_js_text ?c")
      case (Inl x)
      then have "fst (final_add_logs_to_game_js w) = Some x"
        using True by (simp add: game_js_raises)
      moreover have "x = IndexError \<longleftrightarrow> game_js_text ?c = Inl IndexError"
        using Inl by auto
      ultimately show ?thesis using True by (simp add: game_js_text_index_error)
    next
      case (Inr oc)
      then have "game_js_text ?c \<noteq> Inl IndexError" by simp
      moreover have "fst (final_add_logs_to_game_js w) \<noteq> Some IndexError"
        using True Inr
        by (cases oc)
           (simp_all add: final_add_logs_to_game_js_def open_read_def open_write_def)
      ultimately show ?thesis using True by (simp add: game_js_text_index_error)
    qed
  qed
next
  assume a: "readable (fs w game_path) \<and> \<not> py_in game_marker (ftext (fs w game_path)) \<and>
    py_strip (last (py_split_nl (ftext (fs w game_path)))) = game_anchor6"
  then have "game_js_text (ftext (fs w game_path)) = Inl IndexError"
    by (simp add: game_js_text_index_error)
  with a show "final_add_logs_to_game_js w = (Some IndexError, w)"
    by (simp add: game_js_raises)
next
  assume a: "readable (fs w game_path) \<and> \<not> py_in game_marker (ftext (fs w game_path)) \<and>
    py_strip (last (py_split_nl (ftext (fs w game_path)))) = game_anchor6"
  let ?w0 = "print w (ascii ''Adding debug logs...'')"
  have "fs ?w0 = fs w" by (simp add: print_def)
  then have "game_js_text (ftext (fs ?w0 game_path)) = Inl IndexError"
    "readable (fs ?w0 game_path)"
    using a by (simp_all add: game_js_text_index_error)
  then have "final_add_logs_to_game_js ?w0 = (Some IndexError, ?w0)"
    by (simp add: game_js_raises)
  then have "final_main w = (Some IndexError, ?w0)" by (rule game_js_raises_main)
  then show "final_main w =
      (Some IndexError, w\<lparr>stdout := stdout w @ [ascii ''Adding debug logs...'']\<rparr>)"
    by (simp add: print_def)
qed

theorem add_logs_to_game_js_index_error_witness:
  "final_add_logs_to_game_js index_error_world = (Some IndexError, index_error_world) \<and>
   final_main index_error_world =
     (Some IndexError, index_error_world\<lparr>stdout := [ascii ''Adding debug logs...'']\<rparr>)"
proof -
  have t: "ftext (fs index_error_world game_path) = ascii ''// Handle different phases''"
    "readable (fs index_error_world game_path)" "stdout index_error_world = []"
    by (simp_all add: index_error_world_def world_evals)
  have "\<not> py_in game_marker (ascii ''// Handle different phases'') \<and>
        py_strip (last (py_split_nl (ascii ''// Handle different phases''))) = game_anchor6"
    by (simp add: game_marker_def game_anchor6_def ascii_def py_strip_def py_isspace_def)
  then show ?thesis
    using add_logs_to_game_js_index_error [of index_error_world] t by simp
qed

section \<open>The marker guard\<close>

text \<open>
  C2, as the code has it. The check is one marker per file, not one per rule. Each of the
  three functions of add_debug_final.py, and \<open>add_logs_to_board_event_handler_js\<close> of
  add_debug_logs.py, tests its marker on the text just read, before anything else: when
  the marker occurs in the text the function prints its skip line and returns, whatever
  the anchors would match. The file system and the list of writes are those of the world
  before the call; only the printed line is added.
\<close>

theorem marker_guard_skips:
  "(readable (fs w game_path) \<and> py_in game_marker (ftext (fs w game_path)) \<longrightarrow>
      final_add_logs_to_game_js w =
        (None, w\<lparr>stdout := stdout w @ [ascii ''[SKIP] game.js already has debug logs'']\<rparr>)) \<and>
   (readable (fs w view_path) \<and> py_in view_marker (ftext (fs w view_path)) \<longrightarrow>
      final_add_logs_to_view_js w =
        (None, w\<lparr>stdout := stdout w @ [ascii ''[SKIP] view.js already has debug logs'']\<rparr>)) \<and>
   (readable (fs w interaction_path) \<and> py_in inter_marker (ftext (fs w interaction_path)) \<longrightarrow>
      final_add_logs_to_interaction_js w =
        (None, w\<lparr>stdout := stdout w @ [ascii ''[SKIP] interaction.js already has debug logs'']\<rparr>)) \<and>
   (readable (fs w board_path) \<and> py_in board_marker (ftext (fs w board_path)) \<longrightarrow>
      logs_add_logs_to_board_event_handler_js w =
        (None, w\<lparr>stdout := stdout w @
           [[8505, 65039] @ ascii ''  '' @ ascii board_path @ ascii '' already has debug logs'']\<rparr>))"
  by (simp add: final_add_logs_to_game_js_def final_add_logs_to_view_js_def
        final_add_logs_to_interaction_js_def logs_add_logs_to_board_event_handler_js_def
        open_read_def game_js_text_def view_js_text_def
        interaction_js_text_def board_js_text_def print_def)

theorem marker_guard_skips_witness:
  "final_add_logs_to_game_js guard_world =
     (None, guard_world\<lparr>stdout := [ascii ''[SKIP] game.js already has debug logs'']\<rparr>) \<and>
   final_add_logs_to_view_js guard_world =
     (None, guard_world\<lparr>stdout := [ascii ''[SKIP] view.js already has debug logs'']\<rparr>) \<and>
   final_add_logs_to_interaction_js guard_world =
     (None, guard_world\<lparr>stdout := [ascii ''[SKIP] interaction.js already has debug logs'']\<rparr>) \<and>
   logs_add_logs_to_board_event_handler_js board_done_world =
     (None, board_done_world\<lparr>stdout :=
        [[8505, 65039] @ ascii ''  '' @ ascii board_path @ ascii '' already has debug logs'']\<rparr>)"
proof -
  have g: "readable (fs guard_world game_path) \<and>
           py_in game_marker (ftext (fs guard_world game_path))"
    by (simp add: guard_world_def world_evals game_marker_def game_anchor5_def ascii_def)
  have v: "readable (fs guard_world view_path) \<and>
           py_in view_marker (ftext (fs guard_world view_path))"
    by (simp add: guard_world_def world_evals view_marker_def ascii_def)
  have i: "readable (fs guard_world interaction_path) \<and>
           py_in inter_marker (ftext (fs guard_world interaction_path))"
    by (simp add: guard_world_def world_evals inter_marker_def inter_anchor1_def ascii_def)
  have b: "readable (fs board_done_world board_path) \<and>
           py_in board_marker (ftext (fs board_done_world board_path))"
    by (simp add: board_done_world_def world_evals board_marker_def ascii_def)
  have s: "stdout guard_world = []" "stdout board_done_world = []"
    by (simp_all add: guard_world_def board_done_world_def world_of_def)
  note G = marker_guard_skips [of guard_world]
  note B = marker_guard_skips [of board_done_world]
  have c1: "final_add_logs_to_game_js guard_world =
     (None, guard_world\<lparr>stdout := [ascii ''[SKIP] game.js already has debug logs'']\<rparr>)"
    using G [THEN conjunct1] g s(1) by simp
  have c2: "final_add_logs_to_view_js guard_world =
     (None, guard_world\<lparr>stdout := [ascii ''[SKIP] view.js already has debug logs'']\<rparr>)"
    using G [THEN conjunct2, THEN conjunct1] v s(1) by simp
  have c3: "final_add_logs_to_interaction_js guard_world =
     (None, guard_world\<lparr>stdout := [ascii ''[SKIP] interaction.js already has debug logs'']\<rparr>)"
    using G [THEN conjunct2, THEN conjunct2, THEN conjunct1] i s(1) by simp
  have c4: "logs_add_logs_to_board_event_handler_js board_done_world =
     (None, board_done_world\<lparr>stdout :=
        [[8505, 65039] @ ascii ''  '' @ ascii board_path @ ascii '' already has debug logs'']\<rparr>)"
    using B [THEN conjunct2, THEN conjunct2, THEN conjunct2] b s(2) by simp
  from c1 c2 c3 c4 show ?thesis by blast
qed

text \<open>
  C2 as stated fails for the rules that have no marker of their own. In add_debug_final.py
  the log line of the fifth rule is already in the buffer, behind its anchor, and is
  inserted again; in add_debug_logs.py, whose function for game.js has no check at all,
  the same happens with the log line of the fifth pattern. Both files are rewritten.
\<close>

theorem inserted_text_present_inserted_again:
  "py_in game_log5 (ftext (fs game_reinsert_world game_path)) \<and>
   fst (final_add_logs_to_game_js game_reinsert_world) = None \<and>
   writes (snd (final_add_logs_to_game_js game_reinsert_world)) =
     [(game_path, py_join_nl [game_anchor5, game_log5, game_log5])] \<and>
   py_in logs_ins5 (ftext (fs logs_reinsert_world game_path)) \<and>
   fst (logs_add_logs_to_game_js logs_reinsert_world) = None \<and>
   writes (snd (logs_add_logs_to_game_js logs_reinsert_world)) =
     [(game_path, logs_conflict_head @ logs_ins5 @ logs_ins5)]"
proof -
  have a: "py_in game_log5 (ftext (fs game_reinsert_world game_path)) \<and>
   fst (final_add_logs_to_game_js game_reinsert_world) = None \<and>
   writes (snd (final_add_logs_to_game_js game_reinsert_world)) =
     [(game_path, py_join_nl [game_anchor5, game_log5, game_log5])]"
    by (simp add: final_add_logs_to_game_js_def game_reinsert_world_def world_evals
          game_lits game_evals)
  have t: "logs_game_js_text (logs_conflict_head @ logs_ins5) =
      logs_conflict_head @ logs_ins5 @ logs_ins5"
    by (simp add: logs_game_js_text_def logs_conflict_head_def logs_ins5_def
          logs_lits re_sub_def group_text_def py_isspace_def ascii_def)
  have "sublist logs_ins5 (logs_conflict_head @ logs_ins5)" by simp
  then have b: "py_in logs_ins5 (ftext (fs logs_reinsert_world game_path))"
    by (simp add: py_in_sublist logs_reinsert_world_def world_evals)
  have c: "fst (logs_add_logs_to_game_js logs_reinsert_world) = None \<and>
   writes (snd (logs_add_logs_to_game_js logs_reinsert_world)) =
     [(game_path, logs_conflict_head @ logs_ins5 @ logs_ins5)]"
    using t by (simp add: logs_add_logs_to_game_js_def logs_reinsert_world_def world_evals)
  from a b c show ?thesis by blast
qed

section \<open>When the file is written\<close>

text \<open>
  C3, as the code has it. On a game.js that can be read and written,
  \<open>add_logs_to_game_js\<close> of add_debug_final.py does one of three things. With the marker in
  the text it prints the \<open>[SKIP]\<close> line and writes nothing. With the marker absent and a
  last line that strips to \<open>// Handle different phases\<close> it raises IndexError before the
  write. In every other case it writes the file with the lines the loop produced and
  prints the \<open>[OK]\<close> line, whether or not a line was inserted; when no branch is taken
  at any line, the text written is the text read.
\<close>

theorem game_js_write_cases:
  assumes "readable (fs w game_path)" and "writable (fs w game_path)"
    and "c = ftext (fs w game_path)"
  shows
   "(py_in game_marker c \<longrightarrow>
       final_add_logs_to_game_js w =
         (None, w\<lparr>stdout := stdout w @ [ascii ''[SKIP] game.js already has debug logs'']\<rparr>)) \<and>
    (\<not> py_in game_marker c \<and> py_strip (last (py_split_nl c)) = game_anchor6 \<longrightarrow>
       final_add_logs_to_game_js w = (Some IndexError, w)) \<and>
    (\<not> py_in game_marker c \<and> py_strip (last (py_split_nl c)) \<noteq> game_anchor6 \<longrightarrow>
       (\<exists>out. game_while (py_split_nl c) 0 [] = Inr out \<and>
          final_add_logs_to_game_js w =
            (None, w\<lparr>fs := (fs w)(game_path := (fs w game_path)\<lparr>ftext := py_join_nl out\<rparr>),
                      writes := writes w @ [(game_path, py_join_nl out)],
                      stdout := stdout w @ [ascii ''[OK] Updated game.js'']\<rparr>))) \<and>
    (\<not> py_in game_marker c \<and>
     (\<forall>i < length (py_split_nl c). game_branch (py_split_nl c) i = Inr 0) \<longrightarrow>
       final_add_logs_to_game_js w =
         (None, w\<lparr>writes := writes w @ [(game_path, c)],
                   stdout := stdout w @ [ascii ''[OK] Updated game.js'']\<rparr>))"
proof (intro conjI impI)
  assume "py_in game_marker c"
  then show "final_add_logs_to_game_js w =
      (None, w\<lparr>stdout := stdout w @ [ascii ''[SKIP] game.js already has debug logs'']\<rparr>)"
    using assms by (simp add: game_js_guard)
next
  assume "\<not> py_in game_marker c \<and> py_strip (last (py_split_nl c)) = game_anchor6"
  then have "game_js_text (ftext (fs w game_path)) = Inl IndexError"
    using assms(3) by (simp add: game_js_text_index_error)
  with assms(1) show "final_add_logs_to_game_js w = (Some IndexError, w)"
    by (rule game_js_raises)
next
  assume a: "\<not> py_in game_marker c \<and> py_strip (last (py_split_nl c)) \<noteq> game_anchor6"
  then obtain out where out: "game_while (py_split_nl c) 0 [] = Inr out"
    using game_while_ok [OF py_split_nl_nonempty, of c] by blast
  then have "game_js_text (ftext (fs w game_path)) = Inr (Updated (py_join_nl out))"
    using a assms(3) by (simp add: game_js_text_updated)
  from game_js_writes [OF assms(1,2) this] out
  show "\<exists>out. game_while (py_split_nl c) 0 [] = Inr out \<and>
      final_add_logs_to_game_js w =
        (None, w\<lparr>fs := (fs w)(game_path := (fs w game_path)\<lparr>ftext := py_join_nl out\<rparr>),
                  writes := writes w @ [(game_path, py_join_nl out)],
                  stdout := stdout w @ [ascii ''[OK] Updated game.js'']\<rparr>)"
    by blast
next
  assume a: "\<not> py_in game_marker c \<and>
     (\<forall>i < length (py_split_nl c). game_branch (py_split_nl c) i = Inr 0)"
  then have "game_while (py_split_nl c) 0 [] = Inr (py_split_nl c)"
    by (intro game_while_no_match) simp
  then have "game_js_text (ftext (fs w game_path)) = Inr (Updated c)"
    using a assms(3) game_js_text_updated [of c "py_split_nl c"] by (simp add: py_join_split)
  from game_js_writes [OF assms(1,2) this]
  show "final_add_logs_to_game_js w =
      (None, w\<lparr>writes := writes w @ [(game_path, c)],
                stdout := stdout w @ [ascii ''[OK] Updated game.js'']\<rparr>)"
    using assms(3) by simp
qed

lemma plain_world_branch: "game_branch [ascii ''let x = 1;''] 0 = Inr 0"
  by (simp add: game_lits game_evals)

theorem game_js_write_cases_witness:
  "final_add_logs_to_game_js guard_world =
     (None, guard_world\<lparr>stdout := [ascii ''[SKIP] game.js already has debug logs'']\<rparr>) \<and>
   final_add_logs_to_game_js index_error_world = (Some IndexError, index_error_world) \<and>
   (\<exists>out. game_while (py_split_nl (ascii ''let x = 1;'')) 0 [] = Inr out \<and>
      final_add_logs_to_game_js plain_world =
        (None, plain_world\<lparr>fs := (fs plain_world)
                  (game_path := (fs plain_world game_path)\<lparr>ftext := py_join_nl out\<rparr>),
                writes := writes plain_world @ [(game_path, py_join_nl out)],
                stdout := stdout plain_world @ [ascii ''[OK] Updated game.js'']\<rparr>)) \<and>
   final_add_logs_to_game_js plain_world =
     (None, plain_world\<lparr>writes := [(game_path, ascii ''let x = 1;'')],
                         stdout := [ascii ''[OK] Updated game.js'']\<rparr>)"
proof -
  have g: "readable (fs guard_world game_path)" "writable (fs guard_world game_path)"
    "py_in game_marker (ftext (fs guard_world game_path))" "stdout guard_world = []"
    by (simp_all add: guard_world_def world_evals game_marker_def game_anchor5_def ascii_def)
  have e: "readable (fs index_error_world game_path)" "writable (fs index_error_world game_path)"
    "ascii ''// Handle different phases'' = ftext (fs index_error_world game_path)"
    by (simp_all add: index_error_world_def world_evals)
  have e': "\<not> py_in game_marker (ascii ''// Handle different phases'') \<and>
        py_strip (last (py_split_nl (ascii ''// Handle different phases''))) = game_anchor6"
    by (simp add: game_marker_def game_anchor6_def ascii_def py_strip_def py_isspace_def)
  have p: "readable (fs plain_world game_path)" "writable (fs plain_world game_path)"
    "ascii ''let x = 1;'' = ftext (fs plain_world game_path)"
    by (simp_all add: plain_world_def world_evals)
  have q: "writes plain_world = []" "stdout plain_world = []"
    by (simp_all add: plain_world_def world_evals)
  have s: "py_split_nl (ascii ''let x = 1;'') = [ascii ''let x = 1;'']"
    by (simp add: ascii_def)
  have p': "\<not> py_in game_marker (ascii ''let x = 1;'') \<and>
    py_strip (last (py_split_nl (ascii ''let x = 1;''))) \<noteq> game_anchor6"
    by (simp add: game_marker_def game_anchor6_def ascii_def py_strip_def py_isspace_def)
  have b: "\<not> py_in game_marker (ascii ''let x = 1;'') \<and>
    (\<forall>i < length (py_split_nl (ascii ''let x = 1;'')).
             game_branch (py_split_nl (ascii ''let x = 1;'')) i = Inr 0)"
    unfolding s using plain_world_branch p' by simp
  note G = game_js_write_cases [OF g(1,2) refl]
  note E = game_js_write_cases [OF e]
  note P = game_js_write_cases [OF p]
  have c1: "final_add_logs_to_game_js guard_world =
     (None, guard_world\<lparr>stdout := [ascii ''[SKIP] game.js already has debug logs'']\<rparr>)"
    using G [THEN conjunct1] g(3,4) by simp
  have c2: "final_add_logs_to_game_js index_error_world = (Some IndexError, index_error_world)"
    using E [THEN conjunct2, THEN conjunct1] e' by blast
  have c3: "\<exists>out. game_while (py_split_nl (ascii ''let x = 1;'')) 0 [] = Inr out \<and>
      final_add_logs_to_game_js plain_world =
        (None, plain_world\<lparr>fs := (fs plain_world)
                  (game_path := (fs plain_world game_path)\<lparr>ftext := py_join_nl out\<rparr>),
                writes := writes plain_world @ [(game_path, py_join_nl out)],
                stdout := stdout plain_world @ [ascii ''[OK] Updated game.js'']\<rparr>)"
    using P [THEN conjunct2, THEN conjunct2, THEN conjunct1] p' by blast
  have c4: "final_add_logs_to_game_js plain_world =
     (None, plain_world\<lparr>writes := [(game_path, ascii ''let x = 1;'')],
                         stdout := [ascii ''[OK] Updated game.js'']\<rparr>)"
    using P [THEN conjunct2, THEN conjunct2, THEN conjunct2] b q by simp
  from c1 c2 c3 c4 show ?thesis by blast
qed

text \<open>
  C3 as stated fails: on the empty file no branch is taken, yet the file is opened for
  writing and written, and \<open>[OK] Updated game.js\<close> is printed.
\<close>

theorem write_without_insertion:
  "game_branch (py_split_nl []) 0 = Inr 0 \<and>
   fst (final_add_logs_to_game_js empty_world) = None \<and>
   writes (snd (final_add_logs_to_game_js empty_world)) = [(game_path, [])] \<and>
   stdout (snd (final_add_logs_to_game_js empty_world)) = [ascii ''[OK] Updated game.js'']"
  by (simp add: game_lits game_evals empty_world_def world_evals
        final_add_logs_to_game_js_def)

section \<open>An exception in the main block\<close>

text \<open>
  C8, as the code has it. No exception is caught in add_debug_final.py. Each of the three
  functions raises IOError, and leaves the world as it was, when its file cannot be
  opened for reading, and when it has a new text to write and the file cannot be opened
  for writing. An exception raised by one of the three calls ends the main block at that
  call, with the world the call left: the calls behind it are not made, and what the
  calls before it wrote and printed stays.
\<close>

theorem io_error_ends_the_run:
  "(\<not> readable (fs v game_path) \<longrightarrow> final_add_logs_to_game_js v = (Some IOError, v)) \<and>
   (readable (fs v game_path) \<and> \<not> writable (fs v game_path) \<and>
    game_js_text (ftext (fs v game_path)) = Inr (Updated c) \<longrightarrow>
      final_add_logs_to_game_js v = (Some IOError, v)) \<and>
   (\<not> readable (fs v view_path) \<longrightarrow> final_add_logs_to_view_js v = (Some IOError, v)) \<and>
   (readable (fs v view_path) \<and> \<not> writable (fs v view_path) \<and>
    view_js_text (ftext (fs v view_path)) = Updated c \<longrightarrow>
      final_add_logs_to_view_js v = (Some IOError, v)) \<and>
   (\<not> readable (fs v interaction_path) \<longrightarrow>
      final_add_logs_to_interaction_js v = (Some IOError, v)) \<and>
   (readable (fs v interaction_path) \<and> \<not> writable (fs v interaction_path) \<and>
    interaction_js_text (ftext (fs v interaction_path)) = Inr (Updated c) \<longrightarrow>
      final_add_logs_to_interaction_js v = (Some IOError, v)) \<and>
   (final_add_logs_to_game_js (print w (ascii ''Adding debug logs...'')) = (Some x, w1) \<longrightarrow>
      final_main w = (Some x, w1)) \<and>
   (final_add_logs_to_game_js (print w (ascii ''Adding debug logs...'')) = (None, w1) \<and>
    final_add_logs_to_view_js w1 = (Some x, w2) \<longrightarrow>
      final_main w = (Some x, w2)) \<and>
   (final_add_logs_to_game_js (print w (ascii ''Adding debug logs...'')) = (None, w1) \<and>
    final_add_logs_to_view_js w1 = (None, w2) \<and>
    final_add_logs_to_interaction_js w2 = (Some x, w3) \<longrightarrow>
      final_main w = (Some x, w3))"
  by (simp add: final_main_def final_add_logs_to_game_js_def final_add_logs_to_view_js_def
        final_add_logs_to_interaction_js_def open_read_def open_write_def)

theorem io_error_ends_the_run_witness:
  "final_add_logs_to_game_js view_only_world = (Some IOError, view_only_world) \<and>
   final_add_logs_to_game_js read_only_world = (Some IOError, read_only_world) \<and>
   final_add_logs_to_view_js game_done_world = (Some IOError, game_done_world) \<and>
   final_add_logs_to_view_js read_only_world = (Some IOError, read_only_world) \<and>
   final_add_logs_to_interaction_js game_done_world = (Some IOError, game_done_world) \<and>
   final_add_logs_to_interaction_js read_only_world = (Some IOError, read_only_world) \<and>
   final_main view_only_world =
     (Some IOError, print view_only_world (ascii ''Adding debug logs...'')) \<and>
   final_main game_done_world =
     (Some IOError, print (print game_done_world (ascii ''Adding debug logs...''))
        (ascii ''[SKIP] game.js already has debug logs'')) \<and>
   final_main two_done_world =
     (Some IOError, print (print (print two_done_world (ascii ''Adding debug logs...''))
        (ascii ''[SKIP] game.js already has debug logs''))
        (ascii ''[SKIP] view.js already has debug logs''))"
proof -
  let ?hello = "ascii ''Adding debug logs...''"
  let ?sg = "ascii ''[SKIP] game.js already has debug logs''"
  let ?sv = "ascii ''[SKIP] view.js already has debug logs''"
  have s1: "\<not> readable (fs view_only_world game_path)"
    by (simp add: view_only_world_def world_evals)
  have s2: "readable (fs read_only_world game_path) \<and> \<not> writable (fs read_only_world game_path) \<and>
      game_js_text (ftext (fs read_only_world game_path)) = Inr (Updated [])"
    by (simp add: read_only_world_def game_lits game_evals)
  have s3: "\<not> readable (fs game_done_world view_path)"
    by (simp add: game_done_world_def world_evals)
  have s4: "readable (fs read_only_world view_path) \<and> \<not> writable (fs read_only_world view_path) \<and>
      view_js_text (ftext (fs read_only_world view_path)) = Updated []"
    by (simp add: read_only_world_def view_evals)
  have s5: "\<not> readable (fs game_done_world interaction_path)"
    by (simp add: game_done_world_def world_evals)
  have s6: "readable (fs read_only_world interaction_path) \<and>
      \<not> writable (fs read_only_world interaction_path) \<and>
      interaction_js_text (ftext (fs read_only_world interaction_path)) = Inr (Updated [])"
    by (simp add: read_only_world_def interaction_js_text_def inter_marker_def ascii_def
          inter_while.simps inter_body_def inter_anchor1_def inter_anchor2_def elif_def
          py_and_def Let_def)
  note T = io_error_ends_the_run
  have c1: "final_add_logs_to_game_js view_only_world = (Some IOError, view_only_world)"
    using T [of view_only_world] s1 by blast
  have c2: "final_add_logs_to_game_js read_only_world = (Some IOError, read_only_world)"
    using T [of read_only_world "[]"] s2 by blast
  have c3: "final_add_logs_to_view_js game_done_world = (Some IOError, game_done_world)"
    using T [of game_done_world] s3 by blast
  have c4: "final_add_logs_to_view_js read_only_world = (Some IOError, read_only_world)"
    using T [of read_only_world "[]"] s4 by blast
  have c5: "final_add_logs_to_interaction_js game_done_world = (Some IOError, game_done_world)"
    using T [of game_done_world] s5 by blast
  have c6: "final_add_logs_to_interaction_js read_only_world = (Some IOError, read_only_world)"
    using T [of read_only_world "[]"] s6 by blast
  have p1: "final_add_logs_to_game_js (print view_only_world ?hello) =
      (Some IOError, print view_only_world ?hello)"
    by (simp add: final_add_logs_to_game_js_def view_only_world_def world_evals)
  have c7: "final_main view_only_world = (Some IOError, print view_only_world ?hello)"
    using T [of _ _ view_only_world IOError "print view_only_world ?hello"] p1 by blast
  have g2: "final_add_logs_to_game_js (print game_done_world ?hello) =
      (None, print (print game_done_world ?hello) ?sg)"
    by (simp add: final_add_logs_to_game_js_def game_done_world_def world_evals
          game_js_text_def game_marker_def ascii_def)
  have v2: "final_add_logs_to_view_js (print (print game_done_world ?hello) ?sg) =
      (Some IOError, print (print game_done_world ?hello) ?sg)"
    by (simp add: final_add_logs_to_view_js_def game_done_world_def world_evals)
  have c8: "final_main game_done_world = (Some IOError, print (print game_done_world ?hello) ?sg)"
    using T [of _ _ game_done_world IOError "print (print game_done_world ?hello) ?sg"
        "print (print game_done_world ?hello) ?sg"] g2 v2 by blast
  have g3: "final_add_logs_to_game_js (print two_done_world ?hello) =
      (None, print (print two_done_world ?hello) ?sg)"
    by (simp add: final_add_logs_to_game_js_def two_done_world_def world_evals
          game_js_text_def game_marker_def ascii_def)
  have v3: "final_add_logs_to_view_js (print (print two_done_world ?hello) ?sg) =
      (None, print (print (print two_done_world ?hello) ?sg) ?sv)"
    by (simp add: final_add_logs_to_view_js_def two_done_world_def world_evals
          view_js_text_def view_marker_def ascii_def)
  have i3: "final_add_logs_to_interaction_js (print (print (print two_done_world ?hello) ?sg) ?sv) =
      (Some IOError, print (print (print two_done_world ?hello) ?sg) ?sv)"
    by (simp add: final_add_logs_to_interaction_js_def two_done_world_def world_evals)
  have c9: "final_main two_done_world =
      (Some IOError, print (print (print two_done_world ?hello) ?sg) ?sv)"
    using T [of _ _ two_done_world IOError "print (print two_done_world ?hello) ?sg"
        "print (print (print two_done_world ?hello) ?sg) ?sv"
        "print (print (print two_done_world ?hello) ?sg) ?sv"] g3 v3 i3 by blast
  from c1 c2 c3 c4 c5 c6 c7 c8 c9 show ?thesis by blast
qed

text \<open>
  C8 as stated fails: with game.js unreadable and a view.js that the second function
  would rewrite, the run ends with IOError and no write has been performed.
\<close>

theorem later_target_not_processed:
  "fst (final_main view_only_world) = Some IOError \<and>
   writes (snd (final_main view_only_world)) = [] \<and>
   fst (final_add_logs_to_view_js view_only_world) = None \<and>
   writes (snd (final_add_logs_to_view_js view_only_world)) \<noteq> []"
  by (simp add: final_main_def final_add_logs_to_game_js_def final_add_logs_to_view_js_def
        view_only_world_def view_sample_def world_evals view_evals)

section \<open>Running the scanner twice\<close>

lemma marker_in_block: "sublist game_marker (ascii ''        // DEBUG: Click event occurred'')"
proof -
  have "ascii ''        // DEBUG: Click event occurred'' = ascii ''        // '' @ game_marker"
    by (simp add: game_marker_def ascii_def)
  then show ?thesis by (metis sublist_append_leftI)
qed

lemma marker_after_rule1:
  assumes "game_while lines 0 [] = Inr out" and "i < length lines"
    and "game_branch lines i = Inr 1"
  shows "py_in game_marker (py_join_nl out)"
proof -
  obtain pre post where out: "out = pre @ game_place 1 (lines ! i) @ post"
    using game_while_place [OF assms] by blast
  have "ascii ''        // DEBUG: Click event occurred'' \<in> set (game_place 1 (lines ! i))"
    by (simp add: game_place_def game_ins_def game_block1_def)
  then have "ascii ''        // DEBUG: Click event occurred'' \<in> set out"
    using out by simp
  then have "sublist (ascii ''        // DEBUG: Click event occurred'') (py_join_nl out)"
    by (rule sublist_py_join)
  with marker_in_block show ?thesis
    unfolding py_in_sublist by (rule sublist_order.order_trans)
qed

text \<open>
  C1, as the code has it. \<open>add_logs_to_game_js\<close> of add_debug_final.py has one marker for
  the whole file, and only the lines inserted by the first branch contain it. When a run
  returns normally and the first branch was taken at some line of the text it read, a
  second run on the world it leaves returns at the guard: it prints the \<open>[SKIP]\<close> line and
  writes nothing.
\<close>

theorem second_run_skips_after_marker_block:
  assumes "final_add_logs_to_game_js w = (None, w1)"
    and "i < length (py_split_nl (ftext (fs w game_path)))"
    and "game_branch (py_split_nl (ftext (fs w game_path))) i = Inr 1"
  shows "final_add_logs_to_game_js w1 =
           (None, w1\<lparr>stdout := stdout w1 @ [ascii ''[SKIP] game.js already has debug logs'']\<rparr>)"
proof -
  let ?c = "ftext (fs w game_path)"
  have r: "readable (fs w game_path)"
    using assms(1) by (auto simp: final_add_logs_to_game_js_def open_read_def split: if_splits)
  have "readable (fs w1 game_path) \<and> py_in game_marker (ftext (fs w1 game_path))"
  proof (cases "game_js_text ?c")
    case (Inl x)
    then show ?thesis
      using assms(1) r by (simp add: final_add_logs_to_game_js_def open_read_def)
  next
    case (Inr oc)
    show ?thesis
    proof (cases oc)
      case Skipped
      then have "py_in game_marker ?c"
        using Inr game_marker'_marker
        by (auto simp: game_js_text_def split: if_splits sum.splits)
      moreover have "w1 = print w (ascii ''[SKIP] game.js already has debug logs'')"
        using assms(1) r Inr Skipped by (simp add: final_add_logs_to_game_js_def open_read_def)
      ultimately show ?thesis using r by (simp add: print_def)
    next
      case (Updated c')
      then obtain out where out: "game_while (py_split_nl ?c) 0 [] = Inr out"
        and c': "c' = py_join_nl out"
        using Inr by (auto simp: game_js_text_def split: if_splits sum.splits)
      have m: "py_in game_marker c'"
        unfolding c' using out assms(2,3) by (rule marker_after_rule1)
      have "writable (fs w game_path)"
        using assms(1) r Inr Updated
        by (auto simp: final_add_logs_to_game_js_def open_read_def open_write_def split: if_splits)
      then have "fs w1 = (fs w)(game_path := (fs w game_path)\<lparr>ftext := c'\<rparr>)"
        using assms(1) r Inr Updated
        by (auto simp: final_add_logs_to_game_js_def open_read_def open_write_def print_def)
      then show ?thesis using r m by simp
    qed
  qed
  then show ?thesis by (simp add: game_js_guard)
qed

theorem second_run_skips_after_marker_block_witness:
  "final_add_logs_to_game_js (snd (final_add_logs_to_game_js rule1_world)) =
     (None, (snd (final_add_logs_to_game_js rule1_world))\<lparr>stdout :=
        [ascii ''[OK] Updated game.js'', ascii ''[SKIP] game.js already has debug logs'']\<rparr>)"
proof -
  have t: "ftext (fs rule1_world game_path) =
      ascii ''async _handleCardClick(dataset) {'' @ [10] @ game_anchor1"
    by (simp add: rule1_world_def world_evals)
  have s: "py_split_nl (ascii ''async _handleCardClick(dataset) {'' @ [10] @ game_anchor1) =
      [ascii ''async _handleCardClick(dataset) {'', game_anchor1]"
    by (simp add: game_anchor1_def ascii_def)
  have b: "game_branch [ascii ''async _handleCardClick(dataset) {'', game_anchor1] 1 = Inr 1"
    by (simp add: game_lits game_evals)
  have f: "fst (final_add_logs_to_game_js rule1_world) = None"
    by (simp add: final_add_logs_to_game_js_def rule1_world_def world_evals game_lits game_evals)
  have o: "stdout (snd (final_add_logs_to_game_js rule1_world)) = [ascii ''[OK] Updated game.js'']"
    by (simp add: final_add_logs_to_game_js_def rule1_world_def world_evals game_lits game_evals)
  have "final_add_logs_to_game_js rule1_world = (None, snd (final_add_logs_to_game_js rule1_world))"
    using f by (simp add: prod_eq_iff)
  from second_run_skips_after_marker_block [OF this, of 1] t s b o show ?thesis
    by simp
qed

text \<open>
  C1 as stated fails: on a buffer whose only line is the anchor of the fifth branch, the
  first run appends the log line, the second run is not skipped and appends it again.
\<close>

theorem second_run_inserts_again:
  "game_js_text game_anchor5 = Inr (Updated (py_join_nl [game_anchor5, game_log5])) \<and>
   game_js_text (py_join_nl [game_anchor5, game_log5]) =
     Inr (Updated (py_join_nl [game_anchor5, game_log5, game_log5])) \<and>
   py_join_nl [game_anchor5, game_log5, game_log5] \<noteq> py_join_nl [game_anchor5, game_log5]"
  by (simp add: game_lits game_evals)

section \<open>What a line must look like to match\<close>

lemma py_strip_eq_iff:
  assumes "a \<noteq> []" "\<not> py_isspace (hd a)" "\<not> py_isspace (last a)"
  shows "py_strip l = a \<longleftrightarrow>
           (\<exists>ws1 ws2. list_all py_isspace ws1 \<and> list_all py_isspace ws2 \<and> l = ws1 @ a @ ws2)"
proof
  assume s: "py_strip l = a"
  let ?m = "dropWhile py_isspace l"
  have "rev ?m = takeWhile py_isspace (rev ?m) @ dropWhile py_isspace (rev ?m)" by simp
  then have "rev (rev ?m) =
      rev (dropWhile py_isspace (rev ?m)) @ rev (takeWhile py_isspace (rev ?m))"
    by (metis rev_append)
  then have m: "?m = a @ rev (takeWhile py_isspace (rev ?m))"
    using s by (simp add: py_strip_def)
  have "l = takeWhile py_isspace l @ ?m" by simp
  then have "l = takeWhile py_isspace l @ a @ rev (takeWhile py_isspace (rev ?m))"
    using m by simp
  moreover have "list_all py_isspace (takeWhile py_isspace l)"
    by (simp add: list_all_iff) (meson set_takeWhileD)
  moreover have "list_all py_isspace (rev (takeWhile py_isspace (rev ?m)))"
    by (simp add: list_all_iff) (meson set_takeWhileD)
  ultimately show "\<exists>ws1 ws2. list_all py_isspace ws1 \<and> list_all py_isspace ws2 \<and> l = ws1 @ a @ ws2"
    by blast
next
  assume "\<exists>ws1 ws2. list_all py_isspace ws1 \<and> list_all py_isspace ws2 \<and> l = ws1 @ a @ ws2"
  then obtain ws1 ws2 where w: "list_all py_isspace ws1" "list_all py_isspace ws2"
    and l: "l = ws1 @ a @ ws2" by blast
  have "dropWhile py_isspace (a @ ws2) = a @ ws2" using assms(1,2) by (cases a) auto
  then have d: "dropWhile py_isspace l = a @ ws2"
    using w(1) l by (simp add: dropWhile_append list_all_iff)
  have "dropWhile py_isspace (rev a) = rev a"
    using assms(1,3) by (cases "rev a") (auto simp: last_rev [symmetric] simp del: last_rev)
  then have "dropWhile py_isspace (rev ws2 @ rev a) = rev a"
    using w(2) by (simp add: dropWhile_append list_all_iff)
  then show "py_strip l = a" using d by (simp add: py_strip_def)
qed

lemma anchor5_ends:
  "game_anchor5 \<noteq> []" "\<not> py_isspace (hd game_anchor5)" "\<not> py_isspace (last game_anchor5)"
  by (simp_all add: game_anchor5_def ascii_def py_isspace_def)

lemma anchor_ends:
  "game_anchor2 \<noteq> []" "\<not> py_isspace (hd game_anchor2)" "\<not> py_isspace (last game_anchor2)"
  "game_anchor3 \<noteq> []" "\<not> py_isspace (hd game_anchor3)" "\<not> py_isspace (last game_anchor3)"
  "game_anchor4 \<noteq> []" "\<not> py_isspace (hd game_anchor4)" "\<not> py_isspace (last game_anchor4)"
  "game_anchor6 \<noteq> []" "\<not> py_isspace (hd game_anchor6)" "\<not> py_isspace (last game_anchor6)"
  by (simp_all add: game_anchor2_def game_anchor3_def game_anchor4_def game_anchor6_def
        ascii_def py_isspace_def)

lemmas strip_anchor_iff =
  py_strip_eq_iff [OF anchor_ends(1,2,3)] py_strip_eq_iff [OF anchor_ends(4,5,6)]
  py_strip_eq_iff [OF anchor_ends(7,8,9)] py_strip_eq_iff [OF anchor5_ends]
  py_strip_eq_iff [OF anchor_ends(10,11,12)]

text \<open>
  C4, as the code has it. Matching compares code points, so it is case-sensitive, but it
  is not whitespace-exact. The tests of the second to the sixth branch hold exactly for
  the lines that consist of the anchor text between two runs of whitespace, each
  possibly empty, and that pass the branch's test of a neighbouring line: the line before
  contains the context text (with \<open>i > 0\<close> for the second and third branch; for the
  fourth, the line before line 0 is the last line); the fifth branch has no such test;
  for the sixth the next line exists and contains \<open>switch\<close>. The test of the first
  branch holds exactly when the anchor text occurs in the line and
  \<open>async _handleCardClick\<close> in the line before it.
\<close>

theorem stripped_line_match:
  "(game_cond5 lines i = Inr True \<longleftrightarrow> padded game_anchor5 (lines ! i)) \<and>
   (game_cond6 lines i = Inr True \<longleftrightarrow>
      padded game_anchor6 (lines ! i) \<and> Suc i < length lines \<and>
      py_in game_ctx6 (lines ! Suc i)) \<and>
   (i < length lines \<longrightarrow>
      (game_cond1 lines i = Inr True \<longleftrightarrow>
         py_in game_anchor1 (lines ! i) \<and> py_in game_ctx1 (prev_line lines i)) \<and>
      (game_cond2 lines i = Inr True \<longleftrightarrow>
         padded game_anchor2 (lines ! i) \<and> 0 < i \<and> py_in game_ctx2 (lines ! (i - 1))) \<and>
      (game_cond3 lines i = Inr True \<longleftrightarrow>
         padded game_anchor3 (lines ! i) \<and> 0 < i \<and> py_in game_ctx3 (lines ! (i - 1))) \<and>
      (game_cond4 lines i = Inr True \<longleftrightarrow>
         padded game_anchor4 (lines ! i) \<and> py_in game_ctx4 (prev_line lines i)))"
proof (intro conjI impI)
  show "game_cond5 lines i = Inr True \<longleftrightarrow> padded game_anchor5 (lines ! i)"
    by (simp only: game_cond5_def sum.inject strip_anchor_iff [symmetric]) simp
  show "game_cond6 lines i = Inr True \<longleftrightarrow>
      padded game_anchor6 (lines ! i) \<and> Suc i < length lines \<and> py_in game_ctx6 (lines ! Suc i)"
    by (simp only: strip_anchor_iff [symmetric]) (simp add: game_cond6_val)
next
  assume i: "i < length lines"
  show "game_cond1 lines i = Inr True \<longleftrightarrow>
      py_in game_anchor1 (lines ! i) \<and> py_in game_ctx1 (prev_line lines i)"
    using i by (simp add: game_cond1_val prev_line_def)
  show "game_cond2 lines i = Inr True \<longleftrightarrow>
      padded game_anchor2 (lines ! i) \<and> 0 < i \<and> py_in game_ctx2 (lines ! (i - 1))"
    using i by (simp only: strip_anchor_iff [symmetric]) (simp add: game_cond2_val)
  show "game_cond3 lines i = Inr True \<longleftrightarrow>
      padded game_anchor3 (lines ! i) \<and> 0 < i \<and> py_in game_ctx3 (lines ! (i - 1))"
    using i by (simp only: strip_anchor_iff [symmetric]) (simp add: game_cond3_val)
  show "game_cond4 lines i = Inr True \<longleftrightarrow>
      padded game_anchor4 (lines ! i) \<and> py_in game_ctx4 (prev_line lines i)"
    using i by (simp only: strip_anchor_iff [symmetric]) (simp add: game_cond4_val prev_line_def)
qed

theorem stripped_line_match_witness:
  "game_cond5 [ascii ''    '' @ game_anchor5 @ [9, 32]] 0 = Inr True \<and>
   (game_cond1 [game_ctx1, ascii ''  '' @ game_anchor1 @ ascii '' // x''] 1 = Inr True)"
proof -
  let ?l = "[ascii ''    '' @ game_anchor5 @ [9, 32]]"
  let ?m = "[game_ctx1, ascii ''  '' @ game_anchor1 @ ascii '' // x'']"
  have "list_all py_isspace (ascii ''    '') \<and> list_all py_isspace [9, 32] \<and>
        ?l ! 0 = ascii ''    '' @ game_anchor5 @ [9, 32]"
    by (simp add: ascii_def py_isspace_def)
  then have a: "padded game_anchor5 (?l ! 0)" by blast
  have n: "1 < length ?m" by simp
  have "sublist game_anchor1 (ascii ''  '' @ game_anchor1 @ ascii '' // x'')" by simp
  then have b: "py_in game_anchor1 (?m ! 1) \<and> py_in game_ctx1 (prev_line ?m 1)"
    by (simp add: py_in_sublist prev_line_def)
  show ?thesis
    using stripped_line_match [of ?l 0] stripped_line_match [of ?m 1] a b n by blast
qed

text \<open>
  C4 as stated fails: a line that differs from the anchor text by two leading blanks
  matches, and the log line is appended behind it.
\<close>

theorem indented_line_matches:
  "ascii ''  '' @ game_anchor5 \<noteq> game_anchor5 \<and>
   game_body [ascii ''  '' @ game_anchor5] 0 [] = Inr [ascii ''  '' @ game_anchor5, game_log5]"
  by (simp add: game_lits game_evals)

section \<open>How many insertions a rule makes\<close>










section \<open>The indentation of the inserted lines\<close>






section \<open>Two insertions at the same place\<close>

text \<open>
  C9, as the code has it. Nothing in the scripts detects a conflict. Let game.js be
  readable and writable, without the marker, and with a last line that does not strip to
  \<open>// Handle different phases\<close>. When a branch other than the sixth is taken at line
  \<open>i\<close> and the sixth branch, which inserts before its line, is taken at line \<open>i + 1\<close>,
  \<open>add_logs_to_game_js\<close> of add_debug_final.py returns normally and writes a text in
  which the lines of both branches stand between the two lines, those of line \<open>i\<close>
  first.
\<close>

theorem coinciding_insertions_both_applied:
  assumes "readable (fs w game_path)" and "writable (fs w game_path)"
    and "lines = py_split_nl (ftext (fs w game_path))"
    and "\<not> py_in game_marker (ftext (fs w game_path))"
    and "py_strip (last lines) \<noteq> game_anchor6"
    and "Suc i < length lines"
    and "game_branch lines i = Inr k" and "k \<noteq> 6"
    and "game_branch lines (Suc i) = Inr 6"
  shows "\<exists>pre post. final_add_logs_to_game_js w =
           (let c' = py_join_nl
                (pre @ [lines ! i] @ game_ins k @ game_ins 6 @ [lines ! Suc i] @ post)
            in (None, w\<lparr>fs := (fs w)(game_path := (fs w game_path)\<lparr>ftext := c'\<rparr>),
                         writes := writes w @ [(game_path, c')],
                         stdout := stdout w @ [ascii ''[OK] Updated game.js'']\<rparr>))"
proof -
  have ne: "lines \<noteq> []" using assms(3) py_split_nl_nonempty by simp
  obtain out where out: "game_while lines 0 [] = Inr out"
    using game_while_ok [OF ne assms(5)] by blast
  obtain pre post where
    "out = pre @ game_place k (lines ! i) @ game_place 6 (lines ! Suc i) @ post"
    using game_while_two_places [OF out assms(6,7,9)] by blast
  then have o: "out = pre @ [lines ! i] @ game_ins k @ game_ins 6 @ [lines ! Suc i] @ post"
    using assms(8) by (simp add: game_place_def)
  have "game_js_text (ftext (fs w game_path)) = Inr (Updated (py_join_nl out))"
    using assms(3,4) out by (simp add: game_js_text_updated)
  from game_js_writes [OF assms(1,2) this] o show ?thesis
    unfolding Let_def by blast
qed

theorem coinciding_insertions_both_applied_witness:
  "\<exists>pre post. final_add_logs_to_game_js conflict_world =
     (let c' = py_join_nl (pre @ [game_anchor5] @ game_ins 5 @ game_ins 6 @ [game_anchor6] @ post)
      in (None, conflict_world\<lparr>fs := (fs conflict_world)
                  (game_path := (fs conflict_world game_path)\<lparr>ftext := c'\<rparr>),
                writes := writes conflict_world @ [(game_path, c')],
                stdout := stdout conflict_world @ [ascii ''[OK] Updated game.js'']\<rparr>))"
proof -
  let ?ls = "[game_anchor5, game_anchor6, ascii ''switch (this.state.phase) {'']"
  have t: "ftext (fs conflict_world game_path) = conflict_text"
    and r: "readable (fs conflict_world game_path)" "writable (fs conflict_world game_path)"
    by (simp_all add: conflict_world_def world_evals)
  have s: "?ls = py_split_nl (ftext (fs conflict_world game_path))"
    unfolding t by (simp add: conflict_text_def game_lits)
  have m: "\<not> py_in game_marker (ftext (fs conflict_world game_path))"
    unfolding t by (simp add: conflict_text_def game_lits)
  have l: "py_strip (last ?ls) \<noteq> game_anchor6"
    by (simp add: game_lits py_strip_def py_isspace_def)
  have n: "Suc 0 < length ?ls" by simp
  have b: "game_branch ?ls 0 = Inr 5" "game_branch ?ls (Suc 0) = Inr 6"
    by (simp_all add: game_lits game_evals)
  have k: "(5::nat) \<noteq> 6" by simp
  from coinciding_insertions_both_applied [OF r s m l n b(1) k b(2)] show ?thesis
    by simp
qed

text \<open>
  C9 as stated fails: with the anchor of the fifth branch on line 0 and that of the
  sixth on line 1, both insertions resolve to line index 1; the call returns normally
  and the file is written with both.
\<close>

theorem no_conflict_reported:
  "fst (final_add_logs_to_game_js conflict_world) = None \<and>
   writes (snd (final_add_logs_to_game_js conflict_world)) =
     [(game_path, py_join_nl [game_anchor5, game_log5, [], game_log6, game_anchor6,
        ascii ''switch (this.state.phase) {''])]"
  by (simp add: final_add_logs_to_game_js_def conflict_world_def conflict_text_def world_evals
        game_lits game_evals)

text \<open>
  The same in add_debug_logs.py: the fifth pattern inserts behind the comment that ends
  its match, the sixth before the newline that starts its match. With the comment
  directly followed by the \<open>// Handle different phases\<close> line both insertions go to the
  same offset, one behind the other, and nothing is reported.
\<close>

lemma logs_coinciding_substitutions: "logs_game_js_text (logs_conflict_head @ logs_conflict_tail) = logs_conflict_head @ logs_ins5 @ logs_ins6 @ logs_conflict_tail"
  by (simp add: logs_game_js_text_def logs_conflict_head_def logs_conflict_tail_def logs_ins5_def logs_ins6_def
        logs_lits re_sub_def group_text_def py_isspace_def ascii_def)

section \<open>What a substitution keeps of the text\<close>

lemma first_some_Some:
  "first_some f ks = Some r \<Longrightarrow> \<exists>k \<in> set ks. f k = Some r"
  by (induction ks) (auto split: option.splits)

lemma take_takeWhile_all:
  "k \<le> length (takeWhile P s) \<Longrightarrow> list_all P (take k s)"
proof -
  assume "k \<le> length (takeWhile P s)"
  then have "take k s = take k (takeWhile P s)"
    by (metis takeWhile_dropWhile_id take_append diff_is_0_eq' take_0 append_Nil2)
  then show ?thesis
    by (metis in_set_takeD list_all_iff set_takeWhileD)
qed

lemma rmatch_sound:
  "rmatch ps s = Some (gs, r) \<Longrightarrow> concat gs @ r = s \<and> list_all2 piece_ok ps gs"
proof (induction ps s arbitrary: gs r rule: rmatch.induct)
  case (1 s)
  then show ?case by simp
next
  case (2 l ps s)
  then obtain gs' where p: "prefix l s" and m: "rmatch ps (drop (length l) s) = Some (gs', r)"
    and gs: "gs = l # gs'"
    by (auto split: if_splits option.splits)
  from "2.IH" [OF p m] have "concat gs' @ r = drop (length l) s" "list_all2 piece_ok ps gs'"
    by simp_all
  moreover have "l @ drop (length l) s = s" using p by (auto simp: prefix_def)
  ultimately show ?case using gs by simp
next
  case (3 ps s)
  from "3.prems" have "\<exists>k \<in> set (rev [1..<Suc (length (takeWhile py_isspace s))]).
      (case rmatch ps (drop k s) of None \<Rightarrow> None
       | Some (gs, r) \<Rightarrow> Some (take k s # gs, r)) = Some (gs, r)"
    by (simp only: rmatch.simps) (erule first_some_Some)
  then obtain k where k: "k \<in> set (rev [1..<Suc (length (takeWhile py_isspace s))])"
    and c: "(case rmatch ps (drop k s) of None \<Rightarrow> None
             | Some (gs, r) \<Rightarrow> Some (take k s # gs, r)) = Some (gs, r)"
    by blast
  then obtain gs' where m: "rmatch ps (drop k s) = Some (gs', r)" and gs: "gs = take k s # gs'"
    by (auto split: option.splits)
  from "3.IH" [OF m] have "concat gs' @ r = drop k s" "list_all2 piece_ok ps gs'"
    by simp_all
  moreover have "list_all py_isspace (take k s)"
    using k by (intro take_takeWhile_all) auto
  ultimately show ?case using gs by simp
next
  case (4 ps s)
  from "4.prems" have "\<exists>k \<in> set (rev [0..<Suc (length (takeWhile (\<lambda>c. c \<noteq> 10) s))]).
      (case rmatch ps (drop k s) of None \<Rightarrow> None
       | Some (gs, r) \<Rightarrow> Some (take k s # gs, r)) = Some (gs, r)"
    by (simp only: rmatch.simps) (erule first_some_Some)
  then obtain k where
    c: "(case rmatch ps (drop k s) of None \<Rightarrow> None
             | Some (gs, r) \<Rightarrow> Some (take k s # gs, r)) = Some (gs, r)"
    by blast
  then obtain gs' where m: "rmatch ps (drop k s) = Some (gs', r)" and gs: "gs = take k s # gs'"
    by (auto split: option.splits)
  from "4.IH" [OF m] have "concat gs' @ r = drop k s" "list_all2 piece_ok ps gs'"
    by simp_all
  then show ?case using gs by simp
qed

lemma sub_scan_skip:
  "k \<le> length s \<Longrightarrow> sub_scan rx rp left k s = sub_scan rx rp left 0 (drop k s)"
  by (induction rx rp left k s rule: sub_scan.induct) simp_all

lemma sub_scan_two_templates:
  assumes "\<And>gs. list_all2 piece_ok (atoms rx) gs \<Longrightarrow>
             subseq (expand rx gs rp1) (expand rx gs rp2)"
  shows "subseq (sub_scan rx rp1 left k s) (sub_scan rx rp2 left k s)"
  using assms
proof (induction rx rp1 left k s rule: sub_scan.induct)
  case (1 rx rp left)
  show ?case
  proof (cases "rmatch (atoms rx) []")
    case None
    then show ?thesis by simp
  next
    case (Some a)
    obtain gs r where a: "a = (gs, r)" by (cases a)
    have "list_all2 piece_ok (atoms rx) gs"
      using rmatch_sound [of "atoms rx" "[]" gs r] Some a by simp
    then show ?thesis using Some a "1.prems" by simp
  qed
next
  case (2 rx rp left skip)
  show ?case by simp
next
  case (3 rx rp left skip c cs)
  then show ?case by simp
next
  case (4 rx rp left c cs)
  show ?case
  proof (cases "left = Some 0")
    case True
    then show ?thesis by simp
  next
    case False
    show ?thesis
    proof (cases "rmatch (atoms rx) (c # cs)")
      case None
      then show ?thesis using False "4.IH"(1) "4.prems" by simp
    next
      case (Some a)
      obtain gs r where a: "a = (gs, r)" by (cases a)
      have v: "list_all2 piece_ok (atoms rx) gs"
        using rmatch_sound [of "atoms rx" "c # cs" gs r] Some a by simp
      have e: "subseq (expand rx gs rp) (expand rx gs rp2)" using v "4.prems" by simp
      show ?thesis
      proof (cases "concat gs = []")
        case True
        have "subseq (sub_scan rx rp (map_option (\<lambda>n. n - 1) left) 0 cs)
                (sub_scan rx rp2 (map_option (\<lambda>n. n - 1) left) 0 cs)"
          using "4.IH"(2) [OF False Some a [symmetric] True] "4.prems" by simp
        then have "subseq (c # sub_scan rx rp (map_option (\<lambda>n. n - 1) left) 0 cs)
                (c # sub_scan rx rp2 (map_option (\<lambda>n. n - 1) left) 0 cs)"
          by simp
        with e have "subseq
            (expand rx gs rp @ c # sub_scan rx rp (map_option (\<lambda>n. n - 1) left) 0 cs)
            (expand rx gs rp2 @ c # sub_scan rx rp2 (map_option (\<lambda>n. n - 1) left) 0 cs)"
          by (rule list_emb_append_mono)
        then show ?thesis using False Some a True by simp
      next
        case ne: False
        have "subseq (sub_scan rx rp (map_option (\<lambda>n. n - 1) left) (length (concat gs) - 1) cs)
                (sub_scan rx rp2 (map_option (\<lambda>n. n - 1) left) (length (concat gs) - 1) cs)"
          using "4.IH"(3) [OF False Some a [symmetric] ne] "4.prems" by simp
        with e have "subseq
            (expand rx gs rp @
              sub_scan rx rp (map_option (\<lambda>n. n - 1) left) (length (concat gs) - 1) cs)
            (expand rx gs rp2 @
              sub_scan rx rp2 (map_option (\<lambda>n. n - 1) left) (length (concat gs) - 1) cs)"
          by (rule list_emb_append_mono)
        then show ?thesis
          by (simp only: sub_scan.simps False Some a ne if_False option.case prod.case)
      qed
    qed
  qed
qed

lemma sub_scan_input:
  assumes refl: "\<And>xs. R xs xs"
    and app: "\<And>a b c d. R a b \<Longrightarrow> R c d \<Longrightarrow> R (a @ c) (b @ d)"
    and ex: "\<And>gs. list_all2 piece_ok (atoms rx) gs \<Longrightarrow> R (concat gs) (expand rx gs rp)"
  shows "R s (sub_scan rx rp left 0 s)"
proof (induction "length s" arbitrary: s left rule: less_induct)
  case less
  show ?case
  proof (cases s)
    case Nil
    show ?thesis
    proof (cases "left = Some 0 \<or> rmatch (atoms rx) [] = None")
      case True
      then show ?thesis using Nil refl by auto
    next
      case False
      then obtain gs r where m: "rmatch (atoms rx) [] = Some (gs, r)" by auto
      have v: "list_all2 piece_ok (atoms rx) gs"
        using rmatch_sound [OF m] by simp
      have cg: "concat gs = []"
        using rmatch_sound [OF m] by (metis append_is_Nil_conv)
      have "R (concat gs) (expand rx gs rp)" using v by (rule ex)
      then have "R [] (expand rx gs rp)" by (simp only: cg)
      then show ?thesis using Nil False m by simp
    qed
  next
    case (Cons c cs)
    show ?thesis
    proof (cases "left = Some 0")
      case True
      then show ?thesis using Cons refl by simp
    next
      case False
      show ?thesis
      proof (cases "rmatch (atoms rx) (c # cs)")
        case None
        have "R cs (sub_scan rx rp left 0 cs)" using less [of cs left] Cons by simp
        with refl [of "[c]"] have "R ([c] @ cs) ([c] @ sub_scan rx rp left 0 cs)" by (rule app)
        then show ?thesis using Cons False None by simp
      next
        case (Some a)
        obtain gs r where a: "a = (gs, r)" by (cases a)
        have snd: "concat gs @ r = c # cs" "list_all2 piece_ok (atoms rx) gs"
          using rmatch_sound [of "atoms rx" "c # cs" gs r] Some a by simp_all
        have k: "R (concat gs) (expand rx gs rp)" using ex snd(2) by simp
        let ?left = "map_option (\<lambda>n. n - 1) left"
        show ?thesis
        proof (cases "concat gs = []")
          case True
          have "R cs (sub_scan rx rp ?left 0 cs)" using less [of cs ?left] Cons by simp
          with refl [of "[c]"] have "R ([c] @ cs) ([c] @ sub_scan rx rp ?left 0 cs)" by (rule app)
          with k have "R (concat gs @ [c] @ cs)
              (expand rx gs rp @ [c] @ sub_scan rx rp ?left 0 cs)"
            by (rule app)
          moreover have "sub_scan rx rp left 0 (c # cs) =
              expand rx gs rp @ c # sub_scan rx rp ?left 0 cs"
            using False Some a True by simp
          ultimately show ?thesis using Cons True by simp
        next
          case ne: False
          then have m: "length (concat gs) - 1 \<le> length cs"
            using snd(1) by (metis length_append length_Cons le_add1 Suc_le_mono
                Suc_diff_1 length_greater_0_conv)
          have "drop (length (concat gs)) (c # cs) = r"
            using snd(1) by (metis append_eq_conv_conj)
          then have d: "drop (length (concat gs) - 1) cs = r"
            using ne by (cases "length (concat gs)") simp_all
          have "length r < length s" using snd(1) ne Cons
            by (metis length_append length_greater_0_conv less_add_same_cancel2 add.commute)
          then have "R r (sub_scan rx rp ?left 0 r)" using less [of r ?left] by simp
          with k have "R (concat gs @ r) (expand rx gs rp @ sub_scan rx rp ?left 0 r)"
            by (rule app)
          moreover have "sub_scan rx rp ?left (length (concat gs) - 1) cs =
              sub_scan rx rp ?left 0 r"
            by (simp only: sub_scan_skip [OF m] d)
          moreover have "sub_scan rx rp left 0 (c # cs) =
              expand rx gs rp @ sub_scan rx rp ?left (length (concat gs) - 1) cs"
            by (simp only: sub_scan.simps False Some a ne if_False option.case prod.case)
          ultimately show ?thesis using Cons snd(1) by simp
        qed
      qed
    qed
  qed
qed

lemma re_sub_keeps_groups:
  assumes "keeps_groups rx rp"
  shows "subseq (re_sub rx (groups_only rx) s n) (re_sub rx rp s n) \<and>
         subseq (re_sub rx (groups_only rx) s n) s \<and>
         filter (\<lambda>c. \<not> py_isspace c) (re_sub rx (groups_only rx) s n) =
           filter (\<lambda>c. \<not> py_isspace c) s \<and>
         (groups rx = [(0, length (atoms rx))] \<longrightarrow> subseq s (re_sub rx rp s n))"
proof -
  let ?left = "if n = 0 then None else Some n"
  let ?D = "sub_scan rx (groups_only rx) ?left 0 s"
  have a: "subseq ?D (sub_scan rx rp ?left 0 s)"
    using assms by (intro sub_scan_two_templates) (simp add: keeps_groups_def)
  have b: "subseq ?D s"
    using assms
    by (intro sub_scan_input [where R = "\<lambda>x y. subseq y x"])
       (simp_all add: keeps_groups_def list_emb_append_mono)
  have c: "filter (\<lambda>c. \<not> py_isspace c) s = filter (\<lambda>c. \<not> py_isspace c) ?D"
    using assms
    by (intro sub_scan_input
          [where R = "\<lambda>x y. filter (\<lambda>c. \<not> py_isspace c) x = filter (\<lambda>c. \<not> py_isspace c) y"])
       (simp_all add: keeps_groups_def)
  have d: "groups rx = [(0, length (atoms rx))] \<Longrightarrow> s = ?D"
    using assms
    by (intro sub_scan_input [where R = "(=)"]) (simp_all add: keeps_groups_def)
  show ?thesis using a b c d unfolding re_sub_def by auto
qed

lemma filter_spaces_nil: "list_all py_isspace w \<Longrightarrow> filter (\<lambda>c. \<not> py_isspace c) w = []"
  by (induction w) simp_all

lemma subseq_right: "subseq xs (xs @ ys)"
  using list_emb_append_mono [of "(=)" xs xs "[]" ys] by simp

lemma subseq_left: "subseq xs (ys @ xs)"
  by (rule list_emb_append2) simp

lemma keeps_groups_s1:
  "keeps_groups \<lparr>atoms = [Lit a, Spaces, Lit b, Spaces], groups = [(0, 3)]\<rparr> [Grp 1, Txt t]"
  unfolding keeps_groups_def
proof (intro allI impI)
  fix gs assume "list_all2 piece_ok (atoms \<lparr>atoms = [Lit a, Spaces, Lit b, Spaces], groups = [(0, 3)]\<rparr>) gs"
  then obtain x1 w1 x2 w2 where gs: "gs = [x1, w1, x2, w2]"
    and w: "list_all py_isspace w1" "list_all py_isspace w2"
    by (auto simp: list_all2_Cons1)
  show "subseq (expand \<lparr>atoms = [Lit a, Spaces, Lit b, Spaces], groups = [(0, 3)]\<rparr> gs (groups_only \<lparr>atoms = [Lit a, Spaces, Lit b, Spaces], groups = [(0, 3)]\<rparr>)) (expand \<lparr>atoms = [Lit a, Spaces, Lit b, Spaces], groups = [(0, 3)]\<rparr> gs [Grp 1, Txt t]) \<and>
      subseq (expand \<lparr>atoms = [Lit a, Spaces, Lit b, Spaces], groups = [(0, 3)]\<rparr> gs (groups_only \<lparr>atoms = [Lit a, Spaces, Lit b, Spaces], groups = [(0, 3)]\<rparr>)) (concat gs) \<and>
      filter (\<lambda>c. \<not> py_isspace c) (expand \<lparr>atoms = [Lit a, Spaces, Lit b, Spaces], groups = [(0, 3)]\<rparr> gs (groups_only \<lparr>atoms = [Lit a, Spaces, Lit b, Spaces], groups = [(0, 3)]\<rparr>)) =
        filter (\<lambda>c. \<not> py_isspace c) (concat gs) \<and>
      (groups \<lparr>atoms = [Lit a, Spaces, Lit b, Spaces], groups = [(0, 3)]\<rparr> = [(0, length (atoms \<lparr>atoms = [Lit a, Spaces, Lit b, Spaces], groups = [(0, 3)]\<rparr>))] \<longrightarrow>
         expand \<lparr>atoms = [Lit a, Spaces, Lit b, Spaces], groups = [(0, 3)]\<rparr> gs (groups_only \<lparr>atoms = [Lit a, Spaces, Lit b, Spaces], groups = [(0, 3)]\<rparr>) = concat gs)"
    using w by (simp add: gs groups_only_def group_text_def filter_spaces_nil subseq_append' subseq_right subseq_left)
qed

lemma keeps_groups_s2:
  "keeps_groups \<lparr>atoms = [Lit a, Spaces, Lit b], groups = [(0, 1), (2, 3)]\<rparr> [Grp 1, Txt t, Grp 2]"
  unfolding keeps_groups_def
proof (intro allI impI)
  fix gs assume "list_all2 piece_ok (atoms \<lparr>atoms = [Lit a, Spaces, Lit b], groups = [(0, 1), (2, 3)]\<rparr>) gs"
  then obtain x1 w1 x2 where gs: "gs = [x1, w1, x2]"
    and w: "list_all py_isspace w1"
    by (auto simp: list_all2_Cons1)
  show "subseq (expand \<lparr>atoms = [Lit a, Spaces, Lit b], groups = [(0, 1), (2, 3)]\<rparr> gs (groups_only \<lparr>atoms = [Lit a, Spaces, Lit b], groups = [(0, 1), (2, 3)]\<rparr>)) (expand \<lparr>atoms = [Lit a, Spaces, Lit b], groups = [(0, 1), (2, 3)]\<rparr> gs [Grp 1, Txt t, Grp 2]) \<and>
      subseq (expand \<lparr>atoms = [Lit a, Spaces, Lit b], groups = [(0, 1), (2, 3)]\<rparr> gs (groups_only \<lparr>atoms = [Lit a, Spaces, Lit b], groups = [(0, 1), (2, 3)]\<rparr>)) (concat gs) \<and>
      filter (\<lambda>c. \<not> py_isspace c) (expand \<lparr>atoms = [Lit a, Spaces, Lit b], groups = [(0, 1), (2, 3)]\<rparr> gs (groups_only \<lparr>atoms = [Lit a, Spaces, Lit b], groups = [(0, 1), (2, 3)]\<rparr>)) =
        filter (\<lambda>c. \<not> py_isspace c) (concat gs) \<and>
      (groups \<lparr>atoms = [Lit a, Spaces, Lit b], groups = [(0, 1), (2, 3)]\<rparr> = [(0, length (atoms \<lparr>atoms = [Lit a, Spaces, Lit b], groups = [(0, 1), (2, 3)]\<rparr>))] \<longrightarrow>
         expand \<lparr>atoms = [Lit a, Spaces, Lit b], groups = [(0, 1), (2, 3)]\<rparr> gs (groups_only \<lparr>atoms = [Lit a, Spaces, Lit b], groups = [(0, 1), (2, 3)]\<rparr>) = concat gs)"
    using w by (simp add: gs groups_only_def group_text_def filter_spaces_nil subseq_append' subseq_right subseq_left)
qed

lemma keeps_groups_s3:
  "keeps_groups \<lparr>atoms = [Lit a], groups = [(0, 1)]\<rparr> [Grp 1, Txt t]"
  unfolding keeps_groups_def
proof (intro allI impI)
  fix gs assume "list_all2 piece_ok (atoms \<lparr>atoms = [Lit a], groups = [(0, 1)]\<rparr>) gs"
  then obtain x1 where gs: "gs = [x1]"
    by (auto simp: list_all2_Cons1)
  show "subseq (expand \<lparr>atoms = [Lit a], groups = [(0, 1)]\<rparr> gs (groups_only \<lparr>atoms = [Lit a], groups = [(0, 1)]\<rparr>)) (expand \<lparr>atoms = [Lit a], groups = [(0, 1)]\<rparr> gs [Grp 1, Txt t]) \<and>
      subseq (expand \<lparr>atoms = [Lit a], groups = [(0, 1)]\<rparr> gs (groups_only \<lparr>atoms = [Lit a], groups = [(0, 1)]\<rparr>)) (concat gs) \<and>
      filter (\<lambda>c. \<not> py_isspace c) (expand \<lparr>atoms = [Lit a], groups = [(0, 1)]\<rparr> gs (groups_only \<lparr>atoms = [Lit a], groups = [(0, 1)]\<rparr>)) =
        filter (\<lambda>c. \<not> py_isspace c) (concat gs) \<and>
      (groups \<lparr>atoms = [Lit a], groups = [(0, 1)]\<rparr> = [(0, length (atoms \<lparr>atoms = [Lit a], groups = [(0, 1)]\<rparr>))] \<longrightarrow>
         expand \<lparr>atoms = [Lit a], groups = [(0, 1)]\<rparr> gs (groups_only \<lparr>atoms = [Lit a], groups = [(0, 1)]\<rparr>) = concat gs)"
    by (simp add: gs groups_only_def group_text_def filter_spaces_nil subseq_append' subseq_right subseq_left)
qed

lemma keeps_groups_s4:
  "keeps_groups \<lparr>atoms = [Lit a, DotStar, Lit n, Spaces, Lit b], groups = [(0, 5)]\<rparr> [Grp 1, Txt t]"
  unfolding keeps_groups_def
proof (intro allI impI)
  fix gs assume "list_all2 piece_ok (atoms \<lparr>atoms = [Lit a, DotStar, Lit n, Spaces, Lit b], groups = [(0, 5)]\<rparr>) gs"
  then obtain x1 d x2 w1 x3 where gs: "gs = [x1, d, x2, w1, x3]"
    and w: "list_all py_isspace w1"
    by (auto simp: list_all2_Cons1)
  show "subseq (expand \<lparr>atoms = [Lit a, DotStar, Lit n, Spaces, Lit b], groups = [(0, 5)]\<rparr> gs (groups_only \<lparr>atoms = [Lit a, DotStar, Lit n, Spaces, Lit b], groups = [(0, 5)]\<rparr>)) (expand \<lparr>atoms = [Lit a, DotStar, Lit n, Spaces, Lit b], groups = [(0, 5)]\<rparr> gs [Grp 1, Txt t]) \<and>
      subseq (expand \<lparr>atoms = [Lit a, DotStar, Lit n, Spaces, Lit b], groups = [(0, 5)]\<rparr> gs (groups_only \<lparr>atoms = [Lit a, DotStar, Lit n, Spaces, Lit b], groups = [(0, 5)]\<rparr>)) (concat gs) \<and>
      filter (\<lambda>c. \<not> py_isspace c) (expand \<lparr>atoms = [Lit a, DotStar, Lit n, Spaces, Lit b], groups = [(0, 5)]\<rparr> gs (groups_only \<lparr>atoms = [Lit a, DotStar, Lit n, Spaces, Lit b], groups = [(0, 5)]\<rparr>)) =
        filter (\<lambda>c. \<not> py_isspace c) (concat gs) \<and>
      (groups \<lparr>atoms = [Lit a, DotStar, Lit n, Spaces, Lit b], groups = [(0, 5)]\<rparr> = [(0, length (atoms \<lparr>atoms = [Lit a, DotStar, Lit n, Spaces, Lit b], groups = [(0, 5)]\<rparr>))] \<longrightarrow>
         expand \<lparr>atoms = [Lit a, DotStar, Lit n, Spaces, Lit b], groups = [(0, 5)]\<rparr> gs (groups_only \<lparr>atoms = [Lit a, DotStar, Lit n, Spaces, Lit b], groups = [(0, 5)]\<rparr>) = concat gs)"
    using w by (simp add: gs groups_only_def group_text_def filter_spaces_nil subseq_append' subseq_right subseq_left)
qed

lemma keeps_groups_s5:
  "keeps_groups \<lparr>atoms = [Lit a], groups = [(0, 1)]\<rparr> [Txt t, Grp 1]"
  unfolding keeps_groups_def
proof (intro allI impI)
  fix gs assume "list_all2 piece_ok (atoms \<lparr>atoms = [Lit a], groups = [(0, 1)]\<rparr>) gs"
  then obtain x1 where gs: "gs = [x1]"
    by (auto simp: list_all2_Cons1)
  show "subseq (expand \<lparr>atoms = [Lit a], groups = [(0, 1)]\<rparr> gs (groups_only \<lparr>atoms = [Lit a], groups = [(0, 1)]\<rparr>)) (expand \<lparr>atoms = [Lit a], groups = [(0, 1)]\<rparr> gs [Txt t, Grp 1]) \<and>
      subseq (expand \<lparr>atoms = [Lit a], groups = [(0, 1)]\<rparr> gs (groups_only \<lparr>atoms = [Lit a], groups = [(0, 1)]\<rparr>)) (concat gs) \<and>
      filter (\<lambda>c. \<not> py_isspace c) (expand \<lparr>atoms = [Lit a], groups = [(0, 1)]\<rparr> gs (groups_only \<lparr>atoms = [Lit a], groups = [(0, 1)]\<rparr>)) =
        filter (\<lambda>c. \<not> py_isspace c) (concat gs) \<and>
      (groups \<lparr>atoms = [Lit a], groups = [(0, 1)]\<rparr> = [(0, length (atoms \<lparr>atoms = [Lit a], groups = [(0, 1)]\<rparr>))] \<longrightarrow>
         expand \<lparr>atoms = [Lit a], groups = [(0, 1)]\<rparr> gs (groups_only \<lparr>atoms = [Lit a], groups = [(0, 1)]\<rparr>) = concat gs)"
    by (simp add: gs groups_only_def group_text_def filter_spaces_nil subseq_append' subseq_right subseq_left)
qed

lemma keeps_groups_s6:
  "keeps_groups \<lparr>atoms = [Lit a, Spaces, Lit b], groups = [(0, 3)]\<rparr> [Grp 1, Txt t]"
  unfolding keeps_groups_def
proof (intro allI impI)
  fix gs assume "list_all2 piece_ok (atoms \<lparr>atoms = [Lit a, Spaces, Lit b], groups = [(0, 3)]\<rparr>) gs"
  then obtain x1 w1 x2 where gs: "gs = [x1, w1, x2]"
    and w: "list_all py_isspace w1"
    by (auto simp: list_all2_Cons1)
  show "subseq (expand \<lparr>atoms = [Lit a, Spaces, Lit b], groups = [(0, 3)]\<rparr> gs (groups_only \<lparr>atoms = [Lit a, Spaces, Lit b], groups = [(0, 3)]\<rparr>)) (expand \<lparr>atoms = [Lit a, Spaces, Lit b], groups = [(0, 3)]\<rparr> gs [Grp 1, Txt t]) \<and>
      subseq (expand \<lparr>atoms = [Lit a, Spaces, Lit b], groups = [(0, 3)]\<rparr> gs (groups_only \<lparr>atoms = [Lit a, Spaces, Lit b], groups = [(0, 3)]\<rparr>)) (concat gs) \<and>
      filter (\<lambda>c. \<not> py_isspace c) (expand \<lparr>atoms = [Lit a, Spaces, Lit b], groups = [(0, 3)]\<rparr> gs (groups_only \<lparr>atoms = [Lit a, Spaces, Lit b], groups = [(0, 3)]\<rparr>)) =
        filter (\<lambda>c. \<not> py_isspace c) (concat gs) \<and>
      (groups \<lparr>atoms = [Lit a, Spaces, Lit b], groups = [(0, 3)]\<rparr> = [(0, length (atoms \<lparr>atoms = [Lit a, Spaces, Lit b], groups = [(0, 3)]\<rparr>))] \<longrightarrow>
         expand \<lparr>atoms = [Lit a, Spaces, Lit b], groups = [(0, 3)]\<rparr> gs (groups_only \<lparr>atoms = [Lit a, Spaces, Lit b], groups = [(0, 3)]\<rparr>) = concat gs)"
    using w by (simp add: gs groups_only_def group_text_def filter_spaces_nil subseq_append' subseq_right subseq_left)
qed

lemma keeps_groups_s7:
  "keeps_groups \<lparr>atoms = [Lit n, Spaces, Lit a, Spaces, Lit b], groups = [(0, 5)]\<rparr> [Txt t, Grp 1]"
  unfolding keeps_groups_def
proof (intro allI impI)
  fix gs assume "list_all2 piece_ok (atoms \<lparr>atoms = [Lit n, Spaces, Lit a, Spaces, Lit b], groups = [(0, 5)]\<rparr>) gs"
  then obtain x1 w1 x2 w2 x3 where gs: "gs = [x1, w1, x2, w2, x3]"
    and w: "list_all py_isspace w1" "list_all py_isspace w2"
    by (auto simp: list_all2_Cons1)
  show "subseq (expand \<lparr>atoms = [Lit n, Spaces, Lit a, Spaces, Lit b], groups = [(0, 5)]\<rparr> gs (groups_only \<lparr>atoms = [Lit n, Spaces, Lit a, Spaces, Lit b], groups = [(0, 5)]\<rparr>)) (expand \<lparr>atoms = [Lit n, Spaces, Lit a, Spaces, Lit b], groups = [(0, 5)]\<rparr> gs [Txt t, Grp 1]) \<and>
      subseq (expand \<lparr>atoms = [Lit n, Spaces, Lit a, Spaces, Lit b], groups = [(0, 5)]\<rparr> gs (groups_only \<lparr>atoms = [Lit n, Spaces, Lit a, Spaces, Lit b], groups = [(0, 5)]\<rparr>)) (concat gs) \<and>
      filter (\<lambda>c. \<not> py_isspace c) (expand \<lparr>atoms = [Lit n, Spaces, Lit a, Spaces, Lit b], groups = [(0, 5)]\<rparr> gs (groups_only \<lparr>atoms = [Lit n, Spaces, Lit a, Spaces, Lit b], groups = [(0, 5)]\<rparr>)) =
        filter (\<lambda>c. \<not> py_isspace c) (concat gs) \<and>
      (groups \<lparr>atoms = [Lit n, Spaces, Lit a, Spaces, Lit b], groups = [(0, 5)]\<rparr> = [(0, length (atoms \<lparr>atoms = [Lit n, Spaces, Lit a, Spaces, Lit b], groups = [(0, 5)]\<rparr>))] \<longrightarrow>
         expand \<lparr>atoms = [Lit n, Spaces, Lit a, Spaces, Lit b], groups = [(0, 5)]\<rparr> gs (groups_only \<lparr>atoms = [Lit n, Spaces, Lit a, Spaces, Lit b], groups = [(0, 5)]\<rparr>) = concat gs)"
    using w by (simp add: gs groups_only_def group_text_def filter_spaces_nil subseq_append' subseq_right subseq_left)
qed

lemma keeps_groups_simple_game1: "keeps_groups simple_game1_rx simple_game1_repl"
  unfolding simple_game1_rx_def simple_game1_repl_def by (rule keeps_groups_s1)

lemma keeps_groups_simple_game2: "keeps_groups simple_game2_rx simple_game2_repl"
  unfolding simple_game2_rx_def simple_game2_repl_def by (rule keeps_groups_s2)

lemma keeps_groups_simple_game3: "keeps_groups simple_game3_rx simple_game3_repl"
  unfolding simple_game3_rx_def simple_game3_repl_def by (rule keeps_groups_s3)

lemma keeps_groups_simple_game4: "keeps_groups simple_game4_rx simple_game4_repl"
  unfolding simple_game4_rx_def simple_game4_repl_def by (rule keeps_groups_s4)

lemma keeps_groups_simple_game5: "keeps_groups simple_game5_rx simple_game5_repl"
  unfolding simple_game5_rx_def simple_game5_repl_def by (rule keeps_groups_s2)

lemma keeps_groups_simple_game6: "keeps_groups simple_game6_rx simple_game6_repl"
  unfolding simple_game6_rx_def simple_game6_repl_def by (rule keeps_groups_s5)

lemma keeps_groups_logs_game1: "keeps_groups logs_game1_rx logs_game1_repl"
  unfolding logs_game1_rx_def logs_game1_repl_def by (rule keeps_groups_s1)

lemma keeps_groups_logs_game2: "keeps_groups logs_game2_rx logs_game2_repl"
  unfolding logs_game2_rx_def logs_game2_repl_def by (rule keeps_groups_s6)

lemma keeps_groups_logs_game3: "keeps_groups logs_game3_rx logs_game3_repl"
  unfolding logs_game3_rx_def logs_game3_repl_def by (rule keeps_groups_s6)

lemma keeps_groups_logs_game4: "keeps_groups logs_game4_rx logs_game4_repl"
  unfolding logs_game4_rx_def logs_game4_repl_def by (rule keeps_groups_s6)

lemma keeps_groups_logs_game5: "keeps_groups logs_game5_rx logs_game5_repl"
  unfolding logs_game5_rx_def logs_game5_repl_def by (rule keeps_groups_s6)

lemma keeps_groups_logs_game6: "keeps_groups logs_game6_rx logs_game6_repl"
  unfolding logs_game6_rx_def logs_game6_repl_def by (rule keeps_groups_s7)

lemma game_rules_keep_groups:
  "(rx, rp, n) \<in> set (simple_game_rules @ logs_game_rules) \<Longrightarrow> keeps_groups rx rp"
  unfolding simple_game_rules_def logs_game_rules_def
  using keeps_groups_simple_game1 keeps_groups_simple_game2 keeps_groups_simple_game3
    keeps_groups_simple_game4 keeps_groups_simple_game5 keeps_groups_simple_game6
    keeps_groups_logs_game1 keeps_groups_logs_game2 keeps_groups_logs_game3
    keeps_groups_logs_game4 keeps_groups_logs_game5 keeps_groups_logs_game6
  by auto

lemma subseq_concat_map:
  "(\<And>j. j \<in> set js \<Longrightarrow> subseq (f j) (g j)) \<Longrightarrow>
     subseq (concat (map f js)) (concat (map g js))"
  by (induction js) (simp_all add: list_emb_append_mono)

lemma subseq_game_place: "subseq [l] (game_place k l)"
  by (simp add: game_place_def subseq_singleton_left)

lemma game_while_subseq:
  assumes "game_while lines 0 [] = Inr out"
  shows "subseq lines out"
proof -
  have "subseq (concat (map (\<lambda>j. [lines ! j]) [0..<length lines]))
          (concat (map (\<lambda>j. game_place (projr (game_branch lines j)) (lines ! j))
             [0..<length lines]))"
    by (rule subseq_concat_map) (rule subseq_game_place)
  moreover have "concat (map (\<lambda>j. [lines ! j]) [0..<length lines]) =
      map (\<lambda>j. lines ! j) [0..<length lines]"
    by (induction "[0..<length lines]") (simp_all add: concat_map_singleton)
  moreover have "map (\<lambda>j. lines ! j) [0..<length lines] = lines" by (rule map_nth)
  ultimately show ?thesis using game_while_Inr [OF assms] by simp
qed

lemma game_js_text_subseq:
  assumes "game_js_text content = Inr (Updated c')"
  shows "subseq content c'"
proof -
  obtain out where out: "game_while (py_split_nl content) 0 [] = Inr out"
    and c': "c' = py_join_nl out"
    using assms by (auto simp: game_js_text_def split: if_splits sum.splits)
  have "subseq (py_join_nl (py_split_nl content)) (py_join_nl out)"
    using game_while_subseq [OF out] by (rule subseq_py_join)
  then show ?thesis by (simp add: c' py_join_split)
qed

lemma game_js_file_subseq:
  assumes "final_add_logs_to_game_js w = (None, w1)"
  shows "subseq (ftext (fs w game_path)) (ftext (fs w1 game_path))"
proof -
  let ?c = "ftext (fs w game_path)"
  have r: "readable (fs w game_path)"
    using assms by (auto simp: final_add_logs_to_game_js_def open_read_def split: if_splits)
  show ?thesis
  proof (cases "game_js_text ?c")
    case (Inl x)
    then show ?thesis
      using assms r by (simp add: final_add_logs_to_game_js_def open_read_def)
  next
    case (Inr oc)
    show ?thesis
    proof (cases oc)
      case Skipped
      then have "w1 = print w (ascii ''[SKIP] game.js already has debug logs'')"
        using assms r Inr by (simp add: final_add_logs_to_game_js_def open_read_def)
      then show ?thesis by (simp add: print_def)
    next
      case (Updated c')
      have s: "subseq ?c c'" using Inr Updated by (intro game_js_text_subseq) simp
      have "writable (fs w game_path)"
        using assms r Inr Updated
        by (auto simp: final_add_logs_to_game_js_def open_read_def open_write_def split: if_splits)
      then have "fs w1 = (fs w)(game_path := (fs w game_path)\<lparr>ftext := c'\<rparr>)"
        using assms r Inr Updated
        by (auto simp: final_add_logs_to_game_js_def open_read_def open_write_def print_def)
      then show ?thesis using s by simp
    qed
  qed
qed

text \<open>
  C6, as the code has it. The line scanner of add_debug_final.py only adds lines: the text
  read is a subsequence of the text written, for the text transformation and for the file
  before and after a call that returns normally. The functions for game.js of
  add_debug_logs_simple.py and add_debug_logs.py apply their six substitutions in order.
  For each of these twelve substitutions and every buffer, the only characters of the
  buffer that can be missing from the result are those a match consumed outside the
  groups of its pattern, and these are whitespace: the buffer with every match reduced to
  its groups is a subsequence of the result and of the buffer and has the characters of
  the buffer that are not whitespace. When one group encloses the whole pattern, the
  buffer itself is a subsequence of the result.
\<close>

theorem existing_text_kept:
  "(game_js_text content = Inr (Updated c') \<longrightarrow> subseq content c') \<and>
   (final_add_logs_to_game_js w = (None, w1) \<longrightarrow>
      subseq (ftext (fs w game_path)) (ftext (fs w1 game_path))) \<and>
   simple_game_js_text content =
     foldl (\<lambda>c (rx, rp, n). re_sub rx rp c n) content simple_game_rules \<and>
   logs_game_js_text content =
     foldl (\<lambda>c (rx, rp, n). re_sub rx rp c n) content logs_game_rules \<and>
   (\<forall>(rx, rp, n) \<in> set (simple_game_rules @ logs_game_rules).
      subseq (re_sub rx (groups_only rx) s n) (re_sub rx rp s n) \<and>
      subseq (re_sub rx (groups_only rx) s n) s \<and>
      filter (\<lambda>c. \<not> py_isspace c) (re_sub rx (groups_only rx) s n) =
        filter (\<lambda>c. \<not> py_isspace c) s \<and>
      (groups rx = [(0, length (atoms rx))] \<longrightarrow> subseq s (re_sub rx rp s n)))"
proof (intro conjI impI)
  show "simple_game_js_text content =
      foldl (\<lambda>c (rx, rp, n). re_sub rx rp c n) content simple_game_rules"
    by (simp add: simple_game_js_text_def simple_game_rules_def Let_def)
  show "logs_game_js_text content =
      foldl (\<lambda>c (rx, rp, n). re_sub rx rp c n) content logs_game_rules"
    by (simp add: logs_game_js_text_def logs_game_rules_def Let_def)
  show "\<forall>(rx, rp, n) \<in> set (simple_game_rules @ logs_game_rules).
      subseq (re_sub rx (groups_only rx) s n) (re_sub rx rp s n) \<and>
      subseq (re_sub rx (groups_only rx) s n) s \<and>
      filter (\<lambda>c. \<not> py_isspace c) (re_sub rx (groups_only rx) s n) =
        filter (\<lambda>c. \<not> py_isspace c) s \<and>
      (groups rx = [(0, length (atoms rx))] \<longrightarrow> subseq s (re_sub rx rp s n))"
    using game_rules_keep_groups re_sub_keeps_groups by fast
qed (simp_all add: game_js_text_subseq game_js_file_subseq)

theorem existing_text_kept_witness:
  "subseq game_anchor5 (py_join_nl [game_anchor5, game_log5]) \<and>
   subseq (ftext (fs guard_world game_path))
     (ftext (fs (guard_world\<lparr>stdout := [ascii ''[SKIP] game.js already has debug logs'']\<rparr>)
        game_path)) \<and>
   subseq (re_sub simple_game1_rx (groups_only simple_game1_rx) tab_sample 0)
     (re_sub simple_game1_rx simple_game1_repl tab_sample 0) \<and>
   subseq tab_sample (re_sub simple_game3_rx simple_game3_repl tab_sample 1)"
proof -
  have a: "game_js_text game_anchor5 = Inr (Updated (py_join_nl [game_anchor5, game_log5]))"
    by (simp add: game_lits game_evals)
  have b: "final_add_logs_to_game_js guard_world =
      (None, guard_world\<lparr>stdout := [ascii ''[SKIP] game.js already has debug logs'']\<rparr>)"
    by (simp add: final_add_logs_to_game_js_def guard_world_def world_evals game_js_text_def
          game_marker_def game_anchor5_def ascii_def)
  have m1: "(simple_game1_rx, simple_game1_repl, 0) \<in> set (simple_game_rules @ logs_game_rules)"
    by (simp add: simple_game_rules_def)
  have m3: "(simple_game3_rx, simple_game3_repl, 1) \<in> set (simple_game_rules @ logs_game_rules)"
    by (simp add: simple_game_rules_def)
  have g3: "groups simple_game3_rx = [(0, length (atoms simple_game3_rx))]"
    by (simp add: simple_game3_rx_def)
  note T = existing_text_kept [of game_anchor5 "py_join_nl [game_anchor5, game_log5]" guard_world
      "guard_world\<lparr>stdout := [ascii ''[SKIP] game.js already has debug logs'']\<rparr>" tab_sample]
  have c1: "subseq game_anchor5 (py_join_nl [game_anchor5, game_log5])"
    using T a by blast
  have c2: "subseq (ftext (fs guard_world game_path))
     (ftext (fs (guard_world\<lparr>stdout := [ascii ''[SKIP] game.js already has debug logs'']\<rparr>)
        game_path))"
    using T b by blast
  have q: "\<forall>(rx, rp, n) \<in> set (simple_game_rules @ logs_game_rules).
      subseq (re_sub rx (groups_only rx) tab_sample n) (re_sub rx rp tab_sample n) \<and>
      subseq (re_sub rx (groups_only rx) tab_sample n) tab_sample \<and>
      filter (\<lambda>c. \<not> py_isspace c) (re_sub rx (groups_only rx) tab_sample n) =
        filter (\<lambda>c. \<not> py_isspace c) tab_sample \<and>
      (groups rx = [(0, length (atoms rx))] \<longrightarrow> subseq tab_sample (re_sub rx rp tab_sample n))"
    using T by blast
  have c3: "subseq (re_sub simple_game1_rx (groups_only simple_game1_rx) tab_sample 0)
     (re_sub simple_game1_rx simple_game1_repl tab_sample 0)"
    using bspec [OF q m1] by simp
  have c4: "subseq tab_sample (re_sub simple_game3_rx simple_game3_repl tab_sample 1)"
    using bspec [OF q m3] g3 by simp
  from c1 c2 c3 c4 show ?thesis by blast
qed

text \<open>
  C6 as stated fails: the first substitution of add_debug_logs_simple.py (pattern1 ends
  in \<open>\s+\<close> outside the group) removes a tab that follows the anchor and puts two
  newlines and eight blanks in its place, so the text before is not a subsequence of the
  text after.
\<close>

theorem whitespace_after_anchor_replaced:
  "re_sub simple_game1_rx simple_game1_repl tab_sample 0 = tab_result \<and>
   \<not> subseq tab_sample tab_result"
proof -
  have r: "re_sub simple_game1_rx simple_game1_repl tab_sample 0 = tab_result"
    by (simp add: tab_sample_def tab_result_def simple_game1_rx_def simple_game1_repl_def
          re_sub_def group_text_def py_isspace_def ascii_def)
  have a: "9 \<in> set tab_sample" by (simp add: tab_sample_def ascii_def)
  have b: "9 \<notin> set tab_result" by (simp add: tab_result_def ascii_def)
  have "\<not> subseq tab_sample tab_result"
  proof
    assume "subseq tab_sample tab_result"
    from list_emb_set [OF this a] b show False by auto
  qed
  with r show ?thesis by blast
qed

end
